theory Spec2Isabelle
  imports Main
begin

section \<open>PharmaLink: accounts, credentials, tokens and the admin workflow\<close>

text \<open>
  A shallow embedding of the server core of the repository: the Mongoose model
  \<^verbatim>\<open>User\<close> with its \<^verbatim>\<open>pre('validate')\<close> and \<^verbatim>\<open>pre('save')\<close> hooks, the
  \<^verbatim>\<open>auth\<close>, \<^verbatim>\<open>requireAdmin\<close> and \<^verbatim>\<open>requirePermission\<close> middleware, and the
  handlers of \<^verbatim>\<open>routes/auth.js\<close> and \<^verbatim>\<open>routes/admin.js\<close>.

  Roles and statuses are JavaScript strings in the source (the role the spec calls
  customer is the string \<^verbatim>\<open>user\<close>); the schema's \<^verbatim>\<open>enum\<close> is a validator that runs
  when a document is saved, so the model keeps them as strings and checks the enum
  in \<open>schemaValidation\<close>. Dates are numbers (milliseconds, as \<^verbatim>\<open>Date.now()\<close>);
  document ids are numbers. The libraries the source calls (bcryptjs, jsonwebtoken,
  zod, Mongoose's change tracking) are not part of the repository: each is modelled
  by a small definition whose comment says what is assumed of it.
\<close>

named_theorems model \<open>defining equations of the embedding, for evaluation\<close>

subsection \<open>Strings\<close>

text \<open>
  \<^verbatim>\<open>String.prototype.toLowerCase\<close> and \<^verbatim>\<open>trim\<close>, on the ASCII range: a \<open>char\<close> is
  a byte, and bytes outside \<^verbatim>\<open>A-Z\<close> and the ASCII white space are left as they are.
\<close>

definition lowerChar :: "char \<Rightarrow> char" where [model]:
  "lowerChar c =
     (case map_of (zip ''ABCDEFGHIJKLMNOPQRSTUVWXYZ'' ''abcdefghijklmnopqrstuvwxyz'') c of
        None \<Rightarrow> c
      | Some l \<Rightarrow> l)"

definition toLowerCase :: "string \<Rightarrow> string" where [model]:
  "toLowerCase s = map lowerChar s"

definition isSpace :: "char \<Rightarrow> bool" where [model]:
  "isSpace c = (c \<in> set [CHR 0x09, CHR 0x0A, CHR 0x0B, CHR 0x0C, CHR 0x0D, CHR '' ''])"

definition trim :: "string \<Rightarrow> string" where [model]:
  "trim s = rev (dropWhile isSpace (rev (dropWhile isSpace s)))"

text \<open>JavaScript truthiness of an optional string: \<^verbatim>\<open>undefined\<close> and \<^verbatim>\<open>''\<close> are falsy.\<close>

fun truthy :: "string option \<Rightarrow> bool" where
  "truthy None = False"
| "truthy (Some s) = (s \<noteq> [])"

subsection \<open>JSON values (response bodies, log details)\<close>

datatype payload =
    AccessClaims nat string string    \<comment> \<open>\<^verbatim>\<open>{ userId, email, role }\<close>\<close>
  | RefreshClaims nat nat             \<comment> \<open>\<^verbatim>\<open>{ userId, tokenVersion }\<close>\<close>

text \<open>
  jsonwebtoken, symbolically: a token made by \<^verbatim>\<open>jwt.sign\<close> records the secret it
  was signed with, its payload, \<^verbatim>\<open>iat\<close> and \<^verbatim>\<open>exp\<close> (seconds); any other string
  presented as a token is \<open>NotJwt\<close>.
\<close>

datatype token = Jwt string payload nat nat | NotJwt string

datatype json =
    JNull
  | JBool bool
  | JNum nat
  | JStr string
  | JToken token
  | JArr "json list"
  | JObj "(string \<times> json) list"

text \<open>\<^verbatim>\<open>res.json\<close> drops the keys whose value is \<^verbatim>\<open>undefined\<close>.\<close>

fun optKey :: "string \<Rightarrow> json option \<Rightarrow> (string \<times> json) list" where
  "optKey k None = []"
| "optKey k (Some v) = [(k, v)]"

fun jget :: "string \<Rightarrow> json \<Rightarrow> json option" where
  "jget k (JObj kvs) = map_of kvs k"
| "jget k _ = None"

record response =
  code :: nat
  body :: json

definition respond :: "nat \<Rightarrow> (string \<times> json) list \<Rightarrow> response" where [model]:
  "respond c kvs = \<lparr>code = c, body = JObj kvs\<rparr>"

definition msg :: "string \<Rightarrow> (string \<times> json) list" where [model]:
  "msg m = [(''message'', JStr m)]"

text \<open>A middleware either calls \<^verbatim>\<open>next()\<close> or ends the request with a response.\<close>

datatype 'a gate = Next 'a | Respond response

subsection \<open>The User model (models/User.js)\<close>

record storeDetails =
  storeName :: string
  description :: string
  address :: string
  phone :: string
  logo :: string
  active :: bool

record permissions =
  manageUsers :: bool
  manageProducts :: bool
  manageOrders :: bool
  manageSettings :: bool
  promoteUsers :: bool
  viewAnalytics :: bool
  managePermissions :: bool

record statusEntry =
  entryStatus :: string
  reason :: "string option"
  timestamp :: nat
  updatedBy :: "nat option"

text \<open>
  bcryptjs, symbolically: \<^verbatim>\<open>bcrypt.hash(p, salt)\<close> is \<open>Bcrypt salt p\<close>, and
  \<^verbatim>\<open>bcrypt.compare(p, h)\<close> holds exactly when \<open>h\<close> is a hash of \<open>p\<close>. A password
  field that holds a string nobody hashed is \<open>Plain\<close>; \<^verbatim>\<open>compare\<close> is false on it.
\<close>

datatype credential = Plain string | Bcrypt string string

fun bcrypt_hash :: "string \<Rightarrow> string \<Rightarrow> credential" where
  "bcrypt_hash p salt = Bcrypt salt p"

fun bcrypt_compare :: "string \<Rightarrow> credential \<Rightarrow> bool" where
  "bcrypt_compare p (Bcrypt salt q) = (p = q)"
| "bcrypt_compare p (Plain s) = False"

text \<open>\<^verbatim>\<open>this.password.startsWith('$2')\<close>: every bcrypt hash starts so.\<close>

fun startsWithHashMark :: "credential \<Rightarrow> bool" where
  "startsWithHashMark (Bcrypt salt q) = True"
| "startsWithHashMark (Plain s) = (take 2 s = ''$2'')"

text \<open>\<^verbatim>\<open>!this.password\<close>: the empty string is falsy.\<close>

fun noPassword :: "credential \<Rightarrow> bool" where
  "noPassword (Plain s) = (s = [])"
| "noPassword (Bcrypt salt q) = False"

record user =
  uid :: nat
  name :: string
  email :: string
  password :: credential
  role :: string
  storeDetails :: "storeDetails option"
  permissions :: permissions
  status :: string
  statusHistory :: "statusEntry list"
  lastLogin :: nat
  createdAt :: nat

text \<open>The permission objects the \<^verbatim>\<open>pre('save')\<close> hook assigns, by role.\<close>

definition noPermissions :: permissions where [model]:
  "noPermissions =
     \<lparr>manageUsers = False, manageProducts = False, manageOrders = False,
      manageSettings = False, promoteUsers = False, viewAnalytics = False,
      managePermissions = False\<rparr>"

definition rolePermissions :: "string \<Rightarrow> permissions" where [model]:
  "rolePermissions r =
     (if r = ''vendor'' then
        \<lparr>manageUsers = False, manageProducts = True, manageOrders = True,
         manageSettings = False, promoteUsers = False, viewAnalytics = True,
         managePermissions = False\<rparr>
      else if r = ''admin'' then
        \<lparr>manageUsers = True, manageProducts = True, manageOrders = True,
         manageSettings = True, promoteUsers = False, viewAnalytics = True,
         managePermissions = False\<rparr>
      else if r = ''superadmin'' then
        \<lparr>manageUsers = True, manageProducts = True, manageOrders = True,
         manageSettings = True, promoteUsers = True, viewAnalytics = True,
         managePermissions = True\<rparr>
      else noPermissions)"

subsection \<open>Documents and Mongoose's change tracking\<close>

datatype path =
    PathName | PathEmail | PathPassword | PathRole | PathStoreDetails
  | PathPermissions | PathStatus | PathStatusHistory | PathLastLogin

text \<open>
  A document in memory: the field values, whether it is new, the \<^verbatim>\<open>$skipMiddleware\<close>
  flag the registration route sets, and the modified paths. Mongoose marks a path
  modified when the document is new or the assigned value differs from the current
  one; \<open>touch\<close> is that rule.
\<close>

record doc =
  data :: user
  isNew :: bool
  skipMiddleware :: bool
  modified :: "path set"

definition isModified :: "doc \<Rightarrow> path \<Rightarrow> bool" where [model]:
  "isModified d p = (p \<in> modified d)"

definition touch :: "path \<Rightarrow> bool \<Rightarrow> doc \<Rightarrow> doc" where [model]:
  "touch p changed d =
     (if isNew d \<or> changed then d\<lparr>modified := insert p (modified d)\<rparr> else d)"

text \<open>A document as \<^verbatim>\<open>findById\<close> or \<^verbatim>\<open>findOne\<close> returns it.\<close>

definition loaded :: "user \<Rightarrow> doc" where [model]:
  "loaded u = \<lparr>data = u, isNew = False, skipMiddleware = False, modified = {}\<rparr>"

definition setRole :: "string \<Rightarrow> doc \<Rightarrow> doc" where [model]:
  "setRole r d = touch PathRole (role (data d) \<noteq> r) (d\<lparr>data := (data d)\<lparr>role := r\<rparr>\<rparr>)"

definition setStatus :: "string \<Rightarrow> doc \<Rightarrow> doc" where [model]:
  "setStatus st d =
     touch PathStatus (status (data d) \<noteq> st) (d\<lparr>data := (data d)\<lparr>status := st\<rparr>\<rparr>)"

definition setPassword :: "credential \<Rightarrow> doc \<Rightarrow> doc" where [model]:
  "setPassword c d =
     touch PathPassword (password (data d) \<noteq> c) (d\<lparr>data := (data d)\<lparr>password := c\<rparr>\<rparr>)"

definition setLastLogin :: "nat \<Rightarrow> doc \<Rightarrow> doc" where [model]:
  "setLastLogin t d =
     touch PathLastLogin (lastLogin (data d) \<noteq> t) (d\<lparr>data := (data d)\<lparr>lastLogin := t\<rparr>\<rparr>)"

definition setStoreDetails :: "storeDetails option \<Rightarrow> doc \<Rightarrow> doc" where [model]:
  "setStoreDetails sd d =
     touch PathStoreDetails (storeDetails (data d) \<noteq> sd)
       (d\<lparr>data := (data d)\<lparr>storeDetails := sd\<rparr>\<rparr>)"

definition setPermissions :: "permissions \<Rightarrow> doc \<Rightarrow> doc" where [model]:
  "setPermissions p d =
     touch PathPermissions (permissions (data d) \<noteq> p)
       (d\<lparr>data := (data d)\<lparr>permissions := p\<rparr>\<rparr>)"

text \<open>\<^verbatim>\<open>statusHistory.unshift(entry)\<close>: the entry goes to the front of the array.\<close>

definition unshiftHistory :: "statusEntry \<Rightarrow> doc \<Rightarrow> doc" where [model]:
  "unshiftHistory e d =
     touch PathStatusHistory True
       (d\<lparr>data := (data d)\<lparr>statusHistory := e # statusHistory (data d)\<rparr>\<rparr>)"

subsection \<open>The stores, and what a request finds around it\<close>

record logEntry =
  level :: string
  message :: string
  logUser :: "nat option"
  action :: "string option"
  details :: "json option"
  logTimestamp :: nat

record state =
  users :: "user list"
  logs :: "logEntry list"

text \<open>
  What a handler reads from outside: the clock (\<^verbatim>\<open>new Date()\<close>, \<^verbatim>\<open>Date.now()\<close>, one
  reading per request), the salt \<^verbatim>\<open>bcrypt.genSalt\<close> draws, \<^verbatim>\<open>process.env.JWT_SECRET\<close>,
  whether the log collection accepts a write (\<^verbatim>\<open>SystemLog.create\<close> rejects otherwise),
  and the verdict of zod's \<^verbatim>\<open>.email()\<close> pattern, which is not in the source.
\<close>

record env =
  now :: nat
  salt :: string
  jwtSecret :: string
  logStoreUp :: bool
  emailFormat :: "string \<Rightarrow> bool"

definition findById :: "state \<Rightarrow> nat \<Rightarrow> user option" where [model]:
  "findById s i = find (\<lambda>u. uid u = i) (users s)"

text \<open>
  The schema declares \<^verbatim>\<open>lowercase: true\<close> and \<^verbatim>\<open>trim: true\<close> on \<^verbatim>\<open>email\<close>. Mongoose
  applies both when the path is set on a document and also when it casts the filter of
  a query, so \<^verbatim>\<open>User.findOne({ email: e })\<close> looks for the lowercased, trimmed \<open>e\<close>.
\<close>

definition castEmail :: "string \<Rightarrow> string" where [model]:
  "castEmail e = trim (toLowerCase e)"

definition findOneByEmail :: "state \<Rightarrow> string \<Rightarrow> user option" where [model]:
  "findOneByEmail s e = find (\<lambda>u. email u = castEmail e) (users s)"

definition SystemLog_create :: "env \<Rightarrow> logEntry \<Rightarrow> state \<Rightarrow> state option" where [model]:
  "SystemLog_create ev e s =
     (if logStoreUp ev then Some (s\<lparr>logs := logs s @ [e]\<rparr>) else None)"

subsection \<open>Validation and the save hooks (models/User.js)\<close>

datatype saveError = ValidationError string | HookError string | DuplicateKey

text \<open>\<^verbatim>\<open>validateStoreDetails\<close>: the message of the error it throws, if it throws.\<close>

definition validateStoreDetails :: "user \<Rightarrow> string option" where [model]:
  "validateStoreDetails u =
     (if role u = ''vendor'' then
        (case storeDetails u of
           None \<Rightarrow> Some ''Store details are required for vendor accounts''
         | Some sd \<Rightarrow>
             if trim (storeName sd) = [] then Some ''storeName is required for store details''
             else if trim (description sd) = [] then
               Some ''description is required for store details''
             else if trim (address sd) = [] then Some ''address is required for store details''
             else if trim (phone sd) = [] then Some ''phone is required for store details''
             else None)
      else None)"

text \<open>The \<^verbatim>\<open>pre('validate')\<close> hook.\<close>

definition preValidate :: "doc \<Rightarrow> string option" where [model]:
  "preValidate d =
     (if role (data d) = ''vendor'' \<and>
         (isNew d \<or> isModified d PathRole \<or> isModified d PathStoreDetails)
      then validateStoreDetails (data d) else None)"

text \<open>
  The validators the schema declares on the paths the routes write: \<^verbatim>\<open>required\<close>
  (a string must be non-empty), \<^verbatim>\<open>minlength\<close> on the password (a bcrypt hash has
  60 characters), the two \<^verbatim>\<open>enum\<close>s, the store profile a vendor must have, and,
  for every entry of the status history, the \<^verbatim>\<open>required\<close> and \<^verbatim>\<open>enum\<close> of its
  \<^verbatim>\<open>status\<close>: a save validates the entries already stored as well as the new ones.
\<close>

definition validRole :: "string \<Rightarrow> bool" where [model]:
  "validRole r = (r \<in> set [''user'', ''vendor'', ''admin'', ''superadmin''])"

definition validStatus :: "string \<Rightarrow> bool" where [model]:
  "validStatus st = (st \<in> set [''active'', ''inactive'', ''suspended'', ''pending''])"

fun validPassword :: "credential \<Rightarrow> bool" where
  "validPassword (Plain s) = (8 \<le> length s)"
| "validPassword (Bcrypt sl q) = True"

fun validStore :: "storeDetails option \<Rightarrow> bool" where
  "validStore None = True"
| "validStore (Some sd) =
     (storeName sd \<noteq> [] \<and> description sd \<noteq> [] \<and> address sd \<noteq> [] \<and> phone sd \<noteq> [])"

definition validEntry :: "statusEntry \<Rightarrow> bool" where [model]:
  "validEntry e = validStatus (entryStatus e)"

definition schemaValidation :: "user \<Rightarrow> bool" where [model]:
  "schemaValidation u =
     (name u \<noteq> [] \<and> email u \<noteq> [] \<and> validPassword (password u) \<and> validRole (role u) \<and>
      (role u = ''vendor'' \<longrightarrow> storeDetails u \<noteq> None) \<and> validStore (storeDetails u) \<and>
      validStatus (status u) \<and> list_all validEntry (statusHistory u))"

text \<open>
  The \<^verbatim>\<open>pre('save')\<close> hook, in three steps as in the source. Each \<^verbatim>\<open>return next()\<close>
  of the first step ends the hook: the role and status steps do not run then.
\<close>

fun hashCredential :: "string \<Rightarrow> credential \<Rightarrow> credential" where
  "hashCredential sl (Plain s) = bcrypt_hash s sl"
| "hashCredential sl (Bcrypt a q) = Bcrypt a q"

definition roleStep :: "doc \<Rightarrow> string + doc" where [model]:
  "roleStep d =
     (if isModified d PathRole \<or> (role (data d) = ''vendor'' \<and> isNew d) then
        (if role (data d) = ''vendor'' then
           (case storeDetails (data d) of
              None \<Rightarrow> Inl ''Store details are required for vendor accounts''
            | Some sd \<Rightarrow>
                if storeName sd = [] then Inl ''Store details are required for vendor accounts''
                else Inr (setPermissions (rolePermissions ''vendor'') d))
         else if role (data d) = ''admin'' then Inr (setPermissions (rolePermissions ''admin'') d)
         else if role (data d) = ''superadmin'' then
           Inr (setPermissions (rolePermissions ''superadmin'') d)
         else Inr (setPermissions noPermissions d))
      else Inr d)"

definition statusStep :: "env \<Rightarrow> doc \<Rightarrow> doc" where [model]:
  "statusStep ev d =
     (if isModified d PathStatus then
        unshiftHistory
          \<lparr>entryStatus = status (data d), reason = None, timestamp = now ev, updatedBy = None\<rparr> d
      else d)"

definition preSave :: "env \<Rightarrow> doc \<Rightarrow> string + doc" where [model]:
  "preSave ev d =
     (if skipMiddleware d then Inr d
      else if isModified d PathPassword \<and> noPassword (password (data d)) then Inr d
      else if isModified d PathPassword \<and> startsWithHashMark (password (data d)) then Inr d
      else
        (let d1 = (if isModified d PathPassword
                   then setPassword (hashCredential (salt ev) (password (data d))) d else d)
         in case roleStep d1 of
              Inl m \<Rightarrow> Inl m
            | Inr d2 \<Rightarrow> Inr (statusStep ev d2)))"

text \<open>
  \<^verbatim>\<open>doc.save()\<close>: the validate hook, the schema's validators, the save hook, then the
  write. The unique index on \<^verbatim>\<open>email\<close> rejects, with code 11000, an insert or a
  change of email that would give two accounts the same email.
\<close>

definition storeUser :: "user \<Rightarrow> user list \<Rightarrow> user list" where [model]:
  "storeUser u us =
     (if \<exists>v \<in> set us. uid v = uid u then map (\<lambda>v. if uid v = uid u then u else v) us
      else us @ [u])"

definition save :: "env \<Rightarrow> doc \<Rightarrow> state \<Rightarrow> saveError + (doc \<times> state)" where [model]:
  "save ev d s =
     (case preValidate d of
        Some m \<Rightarrow> Inl (ValidationError m)
      | None \<Rightarrow>
          if \<not> schemaValidation (data d) then Inl (ValidationError ''User validation failed'')
          else
            (case preSave ev d of
               Inl m \<Rightarrow> Inl (HookError m)
             | Inr d' \<Rightarrow>
                 if (isNew d' \<or> isModified d' PathEmail) \<and>
                    (\<exists>v \<in> set (users s). email v = email (data d') \<and> uid v \<noteq> uid (data d'))
                 then Inl DuplicateKey
                 else Inr (d'\<lparr>isNew := False, modified := {}\<rparr>,
                           s\<lparr>users := storeUser (data d') (users s)\<rparr>)))"

subsection \<open>Tokens (generateTokens, jsonwebtoken)\<close>

datatype jwtError = TokenExpiredError | JsonWebTokenError

definition jwt_sign :: "payload \<Rightarrow> string \<Rightarrow> nat \<Rightarrow> nat \<Rightarrow> token" where [model]:
  "jwt_sign p secret expiresIn nowMs = Jwt secret p (nowMs div 1000) (nowMs div 1000 + expiresIn)"

text \<open>
  \<^verbatim>\<open>jwt.verify\<close> checks the signature first and the \<^verbatim>\<open>exp\<close> claim after it: the token
  is expired once the clock, in whole seconds, has reached \<^verbatim>\<open>exp\<close>.
\<close>

fun jwt_verify :: "token \<Rightarrow> string \<Rightarrow> nat \<Rightarrow> jwtError + payload" where
  "jwt_verify (NotJwt t) secret nowMs = Inl JsonWebTokenError"
| "jwt_verify (Jwt k p iat ex) secret nowMs =
     (if k \<noteq> secret then Inl JsonWebTokenError
      else if ex \<le> nowMs div 1000 then Inl TokenExpiredError
      else Inr p)"

definition generateTokens :: "env \<Rightarrow> nat \<Rightarrow> string \<Rightarrow> string \<Rightarrow> token \<times> token" where [model]:
  "generateTokens ev userId em r =
     (jwt_sign (AccessClaims userId em r) (jwtSecret ev) 3600 (now ev),
      jwt_sign (RefreshClaims userId (now ev)) (jwtSecret ev) 604800 (now ev))"

fun claimUserId :: "payload \<Rightarrow> nat" where
  "claimUserId (AccessClaims i em r) = i"
| "claimUserId (RefreshClaims i v) = i"

subsection \<open>Middleware (middleware/auth.js and the permission gates)\<close>

text \<open>
  \<^verbatim>\<open>req.user\<close>. The \<^verbatim>\<open>auth\<close> middleware attaches \<^verbatim>\<open>id\<close>, \<^verbatim>\<open>email\<close> and \<^verbatim>\<open>role\<close>;
  \<^verbatim>\<open>requirePermission\<close> also reads \<^verbatim>\<open>req.user.permissions\<close>, which \<^verbatim>\<open>auth\<close> leaves
  undefined. The handlers of \<^verbatim>\<open>routes/admin.js\<close> read \<^verbatim>\<open>req.user._id\<close>, a key that
  \<^verbatim>\<open>auth\<close> never sets: \<open>reqUser_id\<close> is that read.
\<close>

record reqUser =
  ruId :: nat
  ruEmail :: string
  ruRole :: string
  ruPermissions :: "permissions option"

definition reqUser_id :: "reqUser \<Rightarrow> nat option" where [model]:
  "reqUser_id ru = None"

text \<open>
  The request's \<^verbatim>\<open>Authorization\<close> header after \<^verbatim>\<open>replace('Bearer ', '')\<close>, if the
  header is there; \<^verbatim>\<open>!token\<close> holds for a missing header and for the empty string.
\<close>

fun noToken :: "token option \<Rightarrow> bool" where
  "noToken None = True"
| "noToken (Some (NotJwt t)) = (t = [])"
| "noToken (Some (Jwt k p iat ex)) = False"

definition auth :: "env \<Rightarrow> state \<Rightarrow> token option \<Rightarrow> reqUser gate" where [model]:
  "auth ev s hdr =
     (if noToken hdr then
        Respond (respond 401 (msg ''No token, authorization denied'' @
                              [(''needsRefresh'', JBool False)]))
      else
        (case jwt_verify (the hdr) (jwtSecret ev) (now ev) of
           Inr decoded \<Rightarrow>
             (case findById s (claimUserId decoded) of
                None \<Rightarrow>
                  Respond (respond 401 (msg ''Token is not valid - user not found'' @
                                        [(''needsRefresh'', JBool False)]))
              | Some u \<Rightarrow>
                  Next \<lparr>ruId = uid u, ruEmail = email u, ruRole = role u, ruPermissions = None\<rparr>)
         | Inl TokenExpiredError \<Rightarrow>
             Respond (respond 401 (msg ''Token has expired'' @ [(''needsRefresh'', JBool True)]))
         | Inl JsonWebTokenError \<Rightarrow>
             Respond (respond 401 (msg ''Token is not valid'' @
                                   [(''needsRefresh'', JBool False)]))))"

definition requireAdmin :: "state \<Rightarrow> reqUser option \<Rightarrow> reqUser gate" where [model]:
  "requireAdmin s ru =
     (case ru of
        None \<Rightarrow> Respond (respond 401 (msg ''Authentication required''))
      | Some r \<Rightarrow>
          (case findById s (ruId r) of
             None \<Rightarrow> Respond (respond 401 (msg ''User not found''))
           | Some u \<Rightarrow>
               if role u \<notin> set [''admin'', ''superadmin''] then
                 Respond (respond 403 (msg ''Access denied. Admin privileges required.''))
               else Next r))"

text \<open>
  \<^verbatim>\<open>req.user.permissions[permission]\<close>. The object's own keys are the seven booleans
  of the schema; \<open>permissionAt\<close> reads them. A name that is not an own key is looked up
  on \<^verbatim>\<open>Object.prototype\<close>, whose members are functions or objects and so truthy; any
  other name is \<^verbatim>\<open>undefined\<close>. \<open>permissionTruthy\<close> is the truth value the gate tests.
\<close>

definition permissionKeys :: "string list" where [model]:
  "permissionKeys =
     [''manageUsers'', ''manageProducts'', ''manageOrders'', ''manageSettings'',
      ''promoteUsers'', ''viewAnalytics'', ''managePermissions'']"

definition permissionAt :: "permissions \<Rightarrow> string \<Rightarrow> bool option" where [model]:
  "permissionAt p k =
     (if k = ''manageUsers'' then Some (manageUsers p)
      else if k = ''manageProducts'' then Some (manageProducts p)
      else if k = ''manageOrders'' then Some (manageOrders p)
      else if k = ''manageSettings'' then Some (manageSettings p)
      else if k = ''promoteUsers'' then Some (promoteUsers p)
      else if k = ''viewAnalytics'' then Some (viewAnalytics p)
      else if k = ''managePermissions'' then Some (managePermissions p)
      else None)"

definition inheritedMembers :: "string list" where [model]:
  "inheritedMembers =
     [''constructor'', ''toString'', ''toLocaleString'', ''valueOf'', ''hasOwnProperty'',
      ''isPrototypeOf'', ''propertyIsEnumerable'', ''__proto__'', ''__defineGetter__'',
      ''__defineSetter__'', ''__lookupGetter__'', ''__lookupSetter__'']"

definition permissionTruthy :: "permissions \<Rightarrow> string \<Rightarrow> bool" where [model]:
  "permissionTruthy p k =
     (case permissionAt p k of Some b \<Rightarrow> b | None \<Rightarrow> k \<in> set inheritedMembers)"

definition requirePermission :: "string \<Rightarrow> reqUser option \<Rightarrow> reqUser gate" where [model]:
  "requirePermission permission ru =
     (case ru of
        None \<Rightarrow> Respond (respond 401 (msg ''Authentication required''))
      | Some r \<Rightarrow>
          if ruRole r = ''superadmin'' \<or>
             (case ruPermissions r of None \<Rightarrow> False | Some p \<Rightarrow> permissionTruthy p permission)
          then Next r
          else Respond (respond 403
                 [(''message'', JStr (''Required permission: '' @ permission)),
                  (''currentRole'', JStr (ruRole r)),
                  (''missingPermission'', JStr permission)]))"

subsection \<open>Response bodies\<close>

definition storeJson :: "storeDetails \<Rightarrow> json" where [model]:
  "storeJson sd =
     JObj [(''storeName'', JStr (storeName sd)), (''description'', JStr (description sd)),
           (''address'', JStr (address sd)), (''phone'', JStr (phone sd)),
           (''logo'', JStr (logo sd)), (''active'', JBool (active sd))]"

definition permissionsJson :: "permissions \<Rightarrow> json" where [model]:
  "permissionsJson p = JObj (map (\<lambda>k. (k, JBool (permissionAt p k = Some True))) permissionKeys)"

definition entryJson :: "statusEntry \<Rightarrow> json" where [model]:
  "entryJson e =
     JObj ([(''status'', JStr (entryStatus e))] @ optKey ''reason'' (map_option JStr (reason e)) @
           [(''timestamp'', JNum (timestamp e))] @
           optKey ''updatedBy'' (map_option JNum (updatedBy e)))"

text \<open>The \<^verbatim>\<open>user\<close> object of the register and login responses.\<close>

definition sessionUser :: "user \<Rightarrow> json" where [model]:
  "sessionUser u =
     JObj ([(''id'', JNum (uid u)), (''name'', JStr (name u)), (''email'', JStr (email u)),
            (''role'', JStr (role u)), (''status'', JStr (status u))] @
           optKey ''storeDetails'' (map_option storeJson (storeDetails u)))"

text \<open>The \<^verbatim>\<open>user\<close> object of the promote and permissions responses.\<close>

definition permissionUser :: "user \<Rightarrow> json" where [model]:
  "permissionUser u =
     JObj [(''id'', JNum (uid u)), (''name'', JStr (name u)), (''email'', JStr (email u)),
           (''role'', JStr (role u)), (''permissions'', permissionsJson (permissions u))]"

text \<open>\<^verbatim>\<open>updatedUser.toObject()\<close> with the password deleted.\<close>

definition userObject :: "user \<Rightarrow> json" where [model]:
  "userObject u =
     JObj ([(''_id'', JNum (uid u)), (''name'', JStr (name u)), (''email'', JStr (email u)),
            (''role'', JStr (role u))] @
           optKey ''storeDetails'' (map_option storeJson (storeDetails u)) @
           [(''permissions'', permissionsJson (permissions u)), (''status'', JStr (status u)),
            (''statusHistory'', JArr (map entryJson (statusHistory u))),
            (''lastLogin'', JNum (lastLogin u)), (''createdAt'', JNum (createdAt u))])"

definition tokensJson :: "token \<times> token \<Rightarrow> json" where [model]:
  "tokensJson t = JObj [(''accessToken'', JToken (fst t)), (''refreshToken'', JToken (snd t))]"

subsection \<open>POST /register (routes/auth.js)\<close>

record storeDetailsBody =
  sbStoreName :: "string option"
  sbDescription :: "string option"
  sbAddress :: "string option"
  sbPhone :: "string option"
  sbLogo :: "string option"

record registerBody =
  rbName :: "string option"
  rbEmail :: "string option"
  rbPassword :: "string option"
  rbRole :: "string option"
  rbStoreDetails :: "storeDetailsBody option"

text \<open>zod: a string of at least \<open>n\<close> characters.\<close>

fun minString :: "nat \<Rightarrow> string option \<Rightarrow> bool" where
  "minString n None = False"
| "minString n (Some s) = (n \<le> length s)"

definition storeDetailsSchema :: "storeDetailsBody \<Rightarrow> bool" where [model]:
  "storeDetailsSchema sb =
     (minString 1 (sbStoreName sb) \<and> minString 1 (sbDescription sb) \<and>
      minString 1 (sbAddress sb) \<and> minString 1 (sbPhone sb))"

definition registerSchema :: "env \<Rightarrow> registerBody \<Rightarrow> bool" where [model]:
  "registerSchema ev b =
     (minString 2 (rbName b) \<and>
      (case rbEmail b of None \<Rightarrow> False | Some e \<Rightarrow> emailFormat ev e) \<and>
      minString 6 (rbPassword b) \<and>
      (case rbRole b of None \<Rightarrow> False | Some r \<Rightarrow> r \<in> set [''user'', ''vendor'']) \<and>
      (case rbStoreDetails b of None \<Rightarrow> True | Some sb \<Rightarrow> storeDetailsSchema sb) \<and>
      (if rbRole b = Some ''vendor'' then rbStoreDetails b \<noteq> None else True))"

definition freshId :: "user list \<Rightarrow> nat" where [model]:
  "freshId us = Suc (fold max (map uid us) 0)"

text \<open>
  \<^verbatim>\<open>new User(userData)\<close>: the schema trims the name and the email, the paths that
  \<^verbatim>\<open>userData\<close> does not set take the schema's defaults, and every path set counts as
  modified on a new document.
\<close>

definition newUserDoc :: "env \<Rightarrow> state \<Rightarrow> registerBody \<Rightarrow> doc" where [model]:
  "newUserDoc ev s b =
     (let r = the (rbRole b);
          sd = (if r = ''vendor'' \<and> rbStoreDetails b \<noteq> None then
                  (let sb = the (rbStoreDetails b) in
                   Some \<lparr>storeName = trim (the (sbStoreName sb)),
                         description = trim (the (sbDescription sb)),
                         address = trim (the (sbAddress sb)),
                         phone = trim (the (sbPhone sb)),
                         logo = (if truthy (sbLogo sb) then the (sbLogo sb) else []),
                         active = False\<rparr>)
                else None)
      in \<lparr>data =
            \<lparr>uid = freshId (users s),
             name = trim (the (rbName b)),
             email = castEmail (toLowerCase (the (rbEmail b))),
             password = bcrypt_hash (the (rbPassword b)) (salt ev),
             role = r,
             storeDetails = sd,
             permissions = noPermissions,
             status = (if r = ''vendor'' then ''pending'' else ''active''),
             statusHistory = [],
             lastLogin = now ev,
             createdAt = now ev\<rparr>,
          isNew = True,
          skipMiddleware = True,
          modified = {PathName, PathEmail, PathPassword, PathRole, PathStatus, PathLastLogin} \<union>
                     (if sd = None then {} else {PathStoreDetails})\<rparr>)"

text \<open>
  The handler. The body of the 400 response also carries zod's issue list and, in
  development mode, the 500 response carries the error; both are left out.
\<close>

definition register :: "env \<Rightarrow> state \<Rightarrow> registerBody \<Rightarrow> response \<times> state" where [model]:
  "register ev s b =
     (if \<not> registerSchema ev b then (respond 400 (msg ''Validation failed''), s)
      else
        (case findOneByEmail s (toLowerCase (the (rbEmail b))) of
           Some existingUser \<Rightarrow> (respond 409 (msg ''Email already exists''), s)
         | None \<Rightarrow>
             (case save ev (newUserDoc ev s b) s of
                Inl DuplicateKey \<Rightarrow> (respond 409 (msg ''Email already exists''), s)
              | Inl (ValidationError m) \<Rightarrow>
                  (respond 500 (msg ''Registration failed. Please try again.''), s)
              | Inl (HookError m) \<Rightarrow>
                  (respond 500 (msg ''Registration failed. Please try again.''), s)
              | Inr (d, s1) \<Rightarrow>
                  (let u = data d;
                       tokens = generateTokens ev (uid u) (email u) (role u);
                       s2 = (case SystemLog_create ev
                                    \<lparr>level = ''info'',
                                     message = ''New '' @ role u @ '' registered: '' @ email u,
                                     logUser = Some (uid u), action = Some ''register'',
                                     details = None, logTimestamp = now ev\<rparr> s1 of
                               None \<Rightarrow> s1
                             | Some t \<Rightarrow> t)
                   in (respond 201 (msg ''Registration successful'' @
                                    [(''user'', sessionUser u), (''tokens'', tokensJson tokens)]),
                       s2)))))"

subsection \<open>POST /login (routes/auth.js)\<close>

record loginBody =
  lbEmail :: "string option"
  lbPassword :: "string option"
  lbRole :: "string option"

definition loginSchema :: "env \<Rightarrow> loginBody \<Rightarrow> bool" where [model]:
  "loginSchema ev b =
     ((case lbEmail b of None \<Rightarrow> False | Some e \<Rightarrow> emailFormat ev e) \<and>
      lbPassword b \<noteq> None \<and>
      (case lbRole b of None \<Rightarrow> True
       | Some r \<Rightarrow> r \<in> set [''user'', ''vendor'', ''admin'', ''superadmin'']))"

text \<open>\<^verbatim>\<open>user.storeDetails?.active\<close>\<close>

fun storeActive :: "storeDetails option \<Rightarrow> bool" where
  "storeActive None = False"
| "storeActive (Some sd) = active sd"

definition login :: "env \<Rightarrow> state \<Rightarrow> loginBody \<Rightarrow> response \<times> state" where [model]:
  "login ev s b =
     (if \<not> loginSchema ev b then (respond 400 (msg ''Validation failed''), s)
      else
        (case findOneByEmail s (toLowerCase (the (lbEmail b))) of
           None \<Rightarrow> (respond 400 (msg ''Account not found with this email''), s)
         | Some u \<Rightarrow>
             if truthy (lbRole b) \<and> lbRole b = Some ''admin'' \<and>
                role u \<notin> set [''admin'', ''superadmin'']
             then (respond 403 (msg ''Access denied. Admin credentials required.''), s)
             else if truthy (lbRole b) \<and> lbRole b \<noteq> Some ''admin'' \<and> Some (role u) \<noteq> lbRole b
             then (respond 403 (msg (''Invalid credentials for '' @ the (lbRole b) @ '' login'')), s)
             else if \<not> bcrypt_compare (the (lbPassword b)) (password u) then
               (case SystemLog_create ev
                       \<lparr>level = ''warning'', message = ''Failed login attempt'',
                        logUser = None, action = Some ''LOGIN_FAILED'',
                        details = Some (JObj ([(''email'', JStr (the (lbEmail b)))] @
                                              optKey ''role'' (map_option JStr (lbRole b)) @
                                              [(''reason'', JStr ''password_mismatch'')])),
                        logTimestamp = now ev\<rparr> s of
                  None \<Rightarrow> (respond 500 (msg ''Error logging in user''), s)
                | Some s1 \<Rightarrow> (respond 400 (msg ''Invalid password''), s1))
             else if role u = ''vendor'' \<and> status u \<noteq> ''active'' then
               (respond 403 (msg ''Your vendor account is pending approval'' @
                             [(''status'', JStr (status u))]), s)
             else if role u = ''vendor'' \<and> \<not> storeActive (storeDetails u) then
               (respond 403 (msg ''Your store is not yet activated'' @
                             [(''status'', JStr ''store_inactive'')]), s)
             else
               (let tokens = generateTokens ev (uid u) (email u) (role u) in
                case save ev (setLastLogin (now ev) (loaded u)) s of
                  Inl err \<Rightarrow> (respond 500 (msg ''Error logging in user''), s)
                | Inr (d, s1) \<Rightarrow>
                    (case SystemLog_create ev
                            \<lparr>level = ''info'', message = ''User logged in successfully'',
                             logUser = Some (uid (data d)), action = Some ''LOGIN_SUCCESS'',
                             details = None, logTimestamp = now ev\<rparr> s1 of
                       None \<Rightarrow> (respond 500 (msg ''Error logging in user''), s1)
                     | Some s2 \<Rightarrow>
                         (respond 200 [(''user'', sessionUser (data d)),
                                       (''tokens'', tokensJson tokens)], s2)))))"

subsection \<open>DELETE /users/:userId and POST /reset-vendor-password (routes/auth.js)\<close>

definition deleteUser :: "env \<Rightarrow> state \<Rightarrow> reqUser \<Rightarrow> nat \<Rightarrow> response \<times> state" where [model]:
  "deleteUser ev s ru userId =
     (if ruRole ru \<noteq> ''superadmin'' then
        (respond 403 (msg ''Only superadmins can delete users''), s)
      else
        (case findById s userId of
           None \<Rightarrow> (respond 404 (msg ''User not found''), s)
         | Some userToDelete \<Rightarrow>
             if role userToDelete = ''superadmin'' then
               (respond 403 (msg ''Superadmin users cannot be deleted''), s)
             else
               (case SystemLog_create ev
                       \<lparr>level = ''warning'', message = ''User deleted by superadmin'',
                        logUser = Some (ruId ru), action = Some ''USER_DELETED'',
                        details = Some (JObj [(''deletedUserId'', JNum (uid userToDelete)),
                                              (''deletedUserEmail'', JStr (email userToDelete))]),
                        logTimestamp = now ev\<rparr> s of
                  None \<Rightarrow> (respond 500 (msg ''Error deleting user''), s)
                | Some s1 \<Rightarrow>
                    (respond 200 (msg ''User deleted successfully''),
                     s1\<lparr>users := filter (\<lambda>v. uid v \<noteq> userId) (users s1)\<rparr>))))"

text \<open>The route: \<^verbatim>\<open>auth\<close>, then the handler.\<close>

definition DELETE_user :: "env \<Rightarrow> state \<Rightarrow> token option \<Rightarrow> nat \<Rightarrow> response \<times> state" where [model]:
  "DELETE_user ev s hdr userId =
     (case auth ev s hdr of
        Respond r \<Rightarrow> (r, s)
      | Next ru \<Rightarrow> deleteUser ev s ru userId)"

text \<open>
  The reset route has no middleware in front of it. A body without \<^verbatim>\<open>email\<close> makes
  \<^verbatim>\<open>email.toLowerCase()\<close> throw, which the handler's \<^verbatim>\<open>catch\<close> turns into the 500.
  The filter \<^verbatim>\<open>{ email: email.toLowerCase(), role: 'vendor' }\<close> is cast as every query
  on \<^verbatim>\<open>email\<close> is.
\<close>

definition resetVendorPassword :: "env \<Rightarrow> state \<Rightarrow> string option \<Rightarrow> response \<times> state" where [model]:
  "resetVendorPassword ev s em =
     (case em of
        None \<Rightarrow> (respond 500 (msg ''Error resetting password''), s)
      | Some e \<Rightarrow>
          (case find (\<lambda>u. email u = castEmail (toLowerCase e) \<and> role u = ''vendor'')
                  (users s) of
             None \<Rightarrow> (respond 404 (msg ''Vendor account not found''), s)
           | Some u \<Rightarrow>
               (case save ev (setPassword (bcrypt_hash ''Vendor@123'' (salt ev)) (loaded u)) s of
                  Inl err \<Rightarrow> (respond 500 (msg ''Error resetting password''), s)
                | Inr (d, s1) \<Rightarrow>
                    (case SystemLog_create ev
                            \<lparr>level = ''info'', message = ''Vendor password reset'',
                             logUser = Some (uid (data d)), action = Some ''PASSWORD_RESET'',
                             details = None, logTimestamp = now ev\<rparr> s1 of
                       None \<Rightarrow> (respond 500 (msg ''Error resetting password''), s1)
                     | Some s2 \<Rightarrow>
                         (respond 200 (msg ''Password has been reset successfully'' @
                                       [(''email'', JStr (email (data d))),
                                        (''newPassword'', JStr ''Vendor@123'')]), s2)))))"

subsection \<open>The admin routes (routes/admin.js)\<close>

record updateBody =
  ubStatus :: "string option"
  ubRole :: "string option"
  ubReason :: "string option"

text \<open>\<^verbatim>\<open>userToUpdate.storeDetails = {}\<close>: a store profile with nothing but the defaults.\<close>

definition emptyStore :: storeDetails where [model]:
  "emptyStore =
     \<lparr>storeName = [], description = [], address = [], phone = [], logo = [], active = False\<rparr>"

text \<open>The \<^verbatim>\<open>if (status)\<close> block of the update handler.\<close>

definition statusUpdate :: "env \<Rightarrow> reqUser \<Rightarrow> updateBody \<Rightarrow> doc \<Rightarrow> doc" where [model]:
  "statusUpdate ev ru b d0 =
     (let st = the (ubStatus b);
          d1 = setStatus st d0;
          d2 = (if st = ''active'' \<and> role (data d1) = ''vendor'' then
                  (let sd = (case storeDetails (data d1) of None \<Rightarrow> emptyStore | Some x \<Rightarrow> x)
                   in setStoreDetails (Some (sd\<lparr>active := True\<rparr>)) d1)
                else d1)
      in unshiftHistory
           \<lparr>entryStatus = st, reason = ubReason b, timestamp = now ev,
            updatedBy = reqUser_id ru\<rparr> d2)"

text \<open>The \<^verbatim>\<open>// Update fields\<close> part of the handler: the status block, then the role.\<close>

definition applyUpdate :: "env \<Rightarrow> reqUser \<Rightarrow> updateBody \<Rightarrow> doc \<Rightarrow> doc" where [model]:
  "applyUpdate ev ru b d0 =
     (let d1 = (if truthy (ubStatus b) then statusUpdate ev ru b d0 else d0)
      in if truthy (ubRole b) then setRole (the (ubRole b)) d1 else d1)"

definition updateUser :: "env \<Rightarrow> state \<Rightarrow> reqUser \<Rightarrow> nat \<Rightarrow> updateBody \<Rightarrow> response \<times> state"
  where [model]:
  "updateUser ev s ru userId b =
     (case findById s userId of
        None \<Rightarrow> (respond 404 (msg ''User not found''), s)
      | Some u \<Rightarrow>
          if role u = ''superadmin'' \<and> ruRole ru \<noteq> ''superadmin'' then
            (respond 403 (msg ''Cannot modify superadmin users''), s)
          else if ubRole b = Some ''superadmin'' \<and> ruRole ru \<noteq> ''superadmin'' then
            (respond 403 (msg ''Only superadmins can promote to superadmin''), s)
          else
            (case findById s userId of
               None \<Rightarrow> (respond 404 (msg ''User not found''), s)
             | Some userToUpdate \<Rightarrow>
                 (case save ev (applyUpdate ev ru b (loaded userToUpdate)) s of
                    Inl err \<Rightarrow> (respond 500 (msg ''Error updating user''), s)
                  | Inr (updatedUser, s1) \<Rightarrow>
                      (case SystemLog_create ev
                              \<lparr>level = ''info'',
                               message = ''User '' @ email (data updatedUser) @
                                         '' updated by admin'',
                               logUser = reqUser_id ru, action = Some ''USER_UPDATE'',
                               details = Some (JObj
                                 [(''updatedUser'', JNum (uid (data updatedUser))),
                                  (''changes'', JObj
                                     (optKey ''status''
                                        (if truthy (ubStatus b)
                                         then map_option JStr (ubStatus b) else None) @
                                      optKey ''role''
                                        (if truthy (ubRole b)
                                         then map_option JStr (ubRole b) else None) @
                                      optKey ''reason'' (map_option JStr (ubReason b))))]),
                               logTimestamp = now ev\<rparr> s1 of
                         None \<Rightarrow> (respond 500 (msg ''Error updating user''), s1)
                       | Some s2 \<Rightarrow>
                           (\<lparr>code = 200, body = userObject (data updatedUser)\<rparr>, s2)))))"

text \<open>
  \<^verbatim>\<open>User.findByIdAndUpdate(id, { $push: { statusHistory: entry } })\<close>: a write that
  goes to the collection directly, running neither validators nor hooks; \<^verbatim>\<open>$push\<close>
  puts the entry at the end of the array.
\<close>

definition pushHistory :: "nat \<Rightarrow> statusEntry \<Rightarrow> state \<Rightarrow> state" where [model]:
  "pushHistory i e s =
     s\<lparr>users := map (\<lambda>v. if uid v = i then v\<lparr>statusHistory := statusHistory v @ [e]\<rparr> else v)
                    (users s)\<rparr>"

record promoteBody =
  pbRole :: "string option"
  pbReason :: "string option"

definition promoteUser :: "env \<Rightarrow> state \<Rightarrow> reqUser \<Rightarrow> nat \<Rightarrow> promoteBody \<Rightarrow> response \<times> state"
  where [model]:
  "promoteUser ev s ru userId b =
     (case findById s userId of
        None \<Rightarrow> (respond 404 (msg ''User not found''), s)
      | Some u \<Rightarrow>
          if pbRole b \<notin> set [Some ''admin'', Some ''superadmin''] then
            (respond 400 (msg ''Invalid role specified''), s)
          else
            (let r = the (pbRole b) in
             case save ev (setRole r (loaded u)) s of
               Inl err \<Rightarrow> (respond 500 (msg ''Error promoting user''), s)
             | Inr (d, s1) \<Rightarrow>
                 (respond 200 (msg (''User successfully promoted to '' @ r) @
                               [(''user'', permissionUser (data d))]),
                  pushHistory (uid (data d))
                    \<lparr>entryStatus = ''Role changed to '' @ r,
                     reason = Some (if truthy (pbReason b) then the (pbReason b)
                                    else ''Promoted to '' @ r),
                     timestamp = now ev, updatedBy = reqUser_id ru\<rparr> s1)))"

text \<open>
  \<^verbatim>\<open>{ ...user.permissions, ...req.body.permissions }\<close>: the request's object, as its
  list of keys and booleans, overrides the stored object key by key; the (strict)
  schema drops the keys it does not declare.
\<close>

definition permissionPut :: "string \<times> bool \<Rightarrow> permissions \<Rightarrow> permissions" where [model]:
  "permissionPut kv p =
     (let k = fst kv; v = snd kv in
      if k = ''manageUsers'' then p\<lparr>manageUsers := v\<rparr>
      else if k = ''manageProducts'' then p\<lparr>manageProducts := v\<rparr>
      else if k = ''manageOrders'' then p\<lparr>manageOrders := v\<rparr>
      else if k = ''manageSettings'' then p\<lparr>manageSettings := v\<rparr>
      else if k = ''promoteUsers'' then p\<lparr>promoteUsers := v\<rparr>
      else if k = ''viewAnalytics'' then p\<lparr>viewAnalytics := v\<rparr>
      else if k = ''managePermissions'' then p\<lparr>managePermissions := v\<rparr>
      else p)"

definition updatePermissions ::
  "env \<Rightarrow> state \<Rightarrow> reqUser \<Rightarrow> nat \<Rightarrow> (string \<times> bool) list \<Rightarrow> response \<times> state" where [model]:
  "updatePermissions ev s ru userId patch =
     (case findById s userId of
        None \<Rightarrow> (respond 404 (msg ''User not found''), s)
      | Some u \<Rightarrow>
          (case save ev (setPermissions (fold permissionPut patch (permissions u)) (loaded u)) s of
             Inl err \<Rightarrow> (respond 500 (msg ''Error updating user permissions''), s)
           | Inr (d, s1) \<Rightarrow>
               (respond 200 (msg ''User permissions updated successfully'' @
                             [(''user'', permissionUser (data d))]), s1)))"

text \<open>\<^verbatim>\<open>router.use(auth); router.use(requireAdmin)\<close>: every admin route passes both.\<close>

definition adminRouter ::
  "env \<Rightarrow> state \<Rightarrow> token option \<Rightarrow> (reqUser \<Rightarrow> response \<times> state) \<Rightarrow> response \<times> state"
  where [model]:
  "adminRouter ev s hdr handler =
     (case auth ev s hdr of
        Respond r \<Rightarrow> (r, s)
      | Next ru \<Rightarrow>
          (case requireAdmin s (Some ru) of
             Respond r \<Rightarrow> (r, s)
           | Next ru' \<Rightarrow> handler ru'))"

definition PUT_user :: "env \<Rightarrow> state \<Rightarrow> token option \<Rightarrow> nat \<Rightarrow> updateBody \<Rightarrow> response \<times> state"
  where [model]:
  "PUT_user ev s hdr userId b = adminRouter ev s hdr (\<lambda>ru. updateUser ev s ru userId b)"

definition PUT_promote ::
  "env \<Rightarrow> state \<Rightarrow> token option \<Rightarrow> nat \<Rightarrow> promoteBody \<Rightarrow> response \<times> state" where [model]:
  "PUT_promote ev s hdr userId b = adminRouter ev s hdr (\<lambda>ru. promoteUser ev s ru userId b)"

definition PUT_permissions ::
  "env \<Rightarrow> state \<Rightarrow> token option \<Rightarrow> nat \<Rightarrow> (string \<times> bool) list \<Rightarrow> response \<times> state"
  where [model]:
  "PUT_permissions ev s hdr userId patch =
     adminRouter ev s hdr (\<lambda>ru. updatePermissions ev s ru userId patch)"

subsection \<open>Permissions and roles across the store\<close>

text \<open>Every stored account holds the permission row of its role.\<close>

definition permissionsDerived :: "state \<Rightarrow> bool" where [model]:
  "permissionsDerived s = (\<forall>u \<in> set (users s). permissions u = rolePermissions (role u))"

subsection \<open>A small installation, for concrete runs\<close>

definition demoEnv :: env where
  "demoEnv =
     \<lparr>now = 7200000, salt = ''s1'', jwtSecret = ''k'', logStoreUp = True,
      emailFormat = (\<lambda>e. CHR ''@'' \<in> set e)\<rparr>"

definition root :: user where
  "root =
     \<lparr>uid = 1, name = ''Super Admin'', email = ''admin@pharmalink.com'',
      password = Bcrypt ''s0'' ''Admin@2024'', role = ''superadmin'', storeDetails = None,
      permissions = rolePermissions ''superadmin'', status = ''active'', statusHistory = [],
      lastLogin = 1000, createdAt = 1000\<rparr>"

definition alice :: user where
  "alice =
     \<lparr>uid = 2, name = ''Alice'', email = ''alice@x.com'',
      password = Bcrypt ''s0'' ''alicepw1'', role = ''admin'', storeDetails = None,
      permissions = rolePermissions ''admin'', status = ''active'', statusHistory = [],
      lastLogin = 1000, createdAt = 1000\<rparr>"

definition acme :: user where
  "acme =
     \<lparr>uid = 3, name = ''Acme Pharmacy'', email = ''acme@x.com'',
      password = Bcrypt ''s0'' ''secret1'', role = ''vendor'',
      storeDetails = Some \<lparr>storeName = ''Acme'', description = ''Pharmacy'',
                            address = ''1 Main St'', phone = ''555'', logo = [],
                            active = False\<rparr>,
      permissions = noPermissions, status = ''pending'', statusHistory = [],
      lastLogin = 1000, createdAt = 1000\<rparr>"

definition bob :: user where
  "bob =
     \<lparr>uid = 4, name = ''Bob'', email = ''bob@x.com'',
      password = Bcrypt ''s0'' ''bobspw12'', role = ''user'', storeDetails = None,
      permissions = noPermissions, status = ''active'', statusHistory = [],
      lastLogin = 1000, createdAt = 1000\<rparr>"

definition demoState :: state where
  "demoState = \<lparr>users = [root, alice, acme, bob], logs = []\<rparr>"

text \<open>\<^verbatim>\<open>req.user\<close> as \<^verbatim>\<open>auth\<close> attaches it for Alice and for the superadmin.\<close>

definition aliceReq :: reqUser where
  "aliceReq = \<lparr>ruId = 2, ruEmail = ''alice@x.com'', ruRole = ''admin'', ruPermissions = None\<rparr>"

definition rootReq :: reqUser where
  "rootReq =
     \<lparr>ruId = 1, ruEmail = ''admin@pharmalink.com'', ruRole = ''superadmin'',
      ruPermissions = None\<rparr>"

text \<open>A vendor registration, and logins as a vendor.\<close>

definition zedBody :: registerBody where
  "zedBody =
     \<lparr>rbName = Some ''Zed Drugs'', rbEmail = Some ''Zed@x.com'', rbPassword = Some ''secret2'',
      rbRole = Some ''vendor'',
      rbStoreDetails = Some \<lparr>sbStoreName = Some ''Zed'', sbDescription = Some ''Drugs'',
                               sbAddress = Some ''2 Main St'', sbPhone = Some ''556'',
                               sbLogo = None\<rparr>\<rparr>"

definition zedLogin :: loginBody where
  "zedLogin = \<lparr>lbEmail = Some ''zed@x.com'', lbPassword = Some ''secret2'', lbRole = Some ''vendor''\<rparr>"

definition acmeLogin :: loginBody where
  "acmeLogin =
     \<lparr>lbEmail = Some ''acme@x.com'', lbPassword = Some ''secret1'', lbRole = Some ''vendor''\<rparr>"

text \<open>The demo store with Acme's status active and its store profile still inactive.\<close>

definition halfActiveState :: state where
  "halfActiveState = \<lparr>users = [root, alice, acme\<lparr>status := ''active''\<rparr>, bob], logs = []\<rparr>"

definition activate :: updateBody where
  "activate = \<lparr>ubStatus = Some ''active'', ubRole = None, ubReason = None\<rparr>"

text \<open>Two logins that fail: an unknown email, and Bob's email with a wrong password.\<close>

definition nobodyLogin :: loginBody where
  "nobodyLogin = \<lparr>lbEmail = Some ''nobody@x.com'', lbPassword = Some ''guess'', lbRole = None\<rparr>"

definition bobWrongLogin :: loginBody where
  "bobWrongLogin = \<lparr>lbEmail = Some ''bob@x.com'', lbPassword = Some ''guess'', lbRole = None\<rparr>"

text \<open>
  Requests of the admin Alice: a token issued to her a little earlier, a promotion of
  Bob to superadmin, the same as an update, a suspension of Bob, and a permission
  object for him.
\<close>

definition aliceToken :: token where
  "aliceToken = fst (generateTokens (demoEnv\<lparr>now := 7000000\<rparr>) 2 ''alice@x.com'' ''admin'')"

definition promoteToSuperadmin :: promoteBody where
  "promoteToSuperadmin = \<lparr>pbRole = Some ''superadmin'', pbReason = None\<rparr>"

definition updateToSuperadmin :: updateBody where
  "updateToSuperadmin = \<lparr>ubStatus = None, ubRole = Some ''superadmin'', ubReason = None\<rparr>"

definition suspend :: updateBody where
  "suspend = \<lparr>ubStatus = Some ''suspended'', ubRole = None, ubReason = Some ''spam''\<rparr>"

definition grant :: "(string \<times> bool) list" where
  "grant = [(''manageUsers'', True), (''managePermissions'', True)]"

text \<open>Tokens of the superadmin and of Bob, and \<^verbatim>\<open>req.user\<close> as \<^verbatim>\<open>auth\<close> attaches it for Bob.\<close>

definition rootToken :: token where
  "rootToken =
     fst (generateTokens (demoEnv\<lparr>now := 7000000\<rparr>) 1 ''admin@pharmalink.com'' ''superadmin'')"

definition bobToken :: token where
  "bobToken = fst (generateTokens (demoEnv\<lparr>now := 7000000\<rparr>) 4 ''bob@x.com'' ''user'')"

definition bobReq :: reqUser where
  "bobReq = \<lparr>ruId = 4, ruEmail = ''bob@x.com'', ruRole = ''user'', ruPermissions = None\<rparr>"

definition bobLogin :: loginBody where
  "bobLogin = \<lparr>lbEmail = Some ''bob@x.com'', lbPassword = Some ''bobspw12'', lbRole = None\<rparr>"

definition promoteToAdmin :: promoteBody where
  "promoteToAdmin = \<lparr>pbRole = Some ''admin'', pbReason = None\<rparr>"

text \<open>The demo store with Acme holding the vendor's permission row.\<close>

definition tidyState :: state where
  "tidyState =
     \<lparr>users = [root, alice, acme\<lparr>permissions := rolePermissions ''vendor''\<rparr>, bob], logs = []\<rparr>"

lemmas demo = demoEnv_def root_def alice_def acme_def bob_def demoState_def aliceReq_def
  rootReq_def zedBody_def zedLogin_def acmeLogin_def halfActiveState_def activate_def
  nobodyLogin_def bobWrongLogin_def aliceToken_def promoteToSuperadmin_def
  updateToSuperadmin_def suspend_def grant_def promoteToAdmin_def tidyState_def
  rootToken_def bobToken_def bobReq_def bobLogin_def

section \<open>Properties\<close>

subsection \<open>The permission gate\<close>

text \<open>
  The gate by itself, on a \<^verbatim>\<open>req.user\<close> given to it: the role superadmin passes
  whatever the permission object holds; any other role passes on one of the seven names
  exactly when the object's boolean of that name is set; a refusal is the 403 that names
  the permission.
\<close>

lemma requirePermission_superadmin:
  "ruRole ru = ''superadmin'' \<Longrightarrow> requirePermission permission (Some ru) = Next ru"
  by (simp add: requirePermission_def)

lemma requirePermission_reads_table:
  assumes "ruRole ru \<noteq> ''superadmin''" "ruPermissions ru = Some p"
  shows "(requirePermission ''manageUsers'' (Some ru) = Next ru) = manageUsers p"
    and "(requirePermission ''manageProducts'' (Some ru) = Next ru) = manageProducts p"
    and "(requirePermission ''manageOrders'' (Some ru) = Next ru) = manageOrders p"
    and "(requirePermission ''manageSettings'' (Some ru) = Next ru) = manageSettings p"
    and "(requirePermission ''promoteUsers'' (Some ru) = Next ru) = promoteUsers p"
    and "(requirePermission ''viewAnalytics'' (Some ru) = Next ru) = viewAnalytics p"
    and "(requirePermission ''managePermissions'' (Some ru) = Next ru) = managePermissions p"
  using assms by (simp_all add: requirePermission_def permissionTruthy_def permissionAt_def)

lemma requirePermission_refusal:
  assumes "requirePermission permission (Some ru) \<noteq> Next ru"
  shows "requirePermission permission (Some ru) =
           Respond \<lparr>code = 403,
                    body = JObj [(''message'', JStr (''Required permission: '' @ permission)),
                                 (''currentRole'', JStr (ruRole ru)),
                                 (''missingPermission'', JStr permission)]\<rparr>"
  using assms by (simp add: requirePermission_def respond_def split: if_splits)

text \<open>A name that every object inherits passes the gate, whatever the booleans say.\<close>

lemma requirePermission_inherited_member:
  "requirePermission ''constructor''
     (Some \<lparr>ruId = 4, ruEmail = ''bob@x.com'', ruRole = ''user'',
            ruPermissions = Some noPermissions\<rparr>) =
     Next \<lparr>ruId = 4, ruEmail = ''bob@x.com'', ruRole = ''user'',
           ruPermissions = Some noPermissions\<rparr>"
  by (simp add: model)

text \<open>
  The \<^verbatim>\<open>req.user\<close> that \<^verbatim>\<open>auth\<close> builds carries no permission object, so behind
  \<^verbatim>\<open>auth\<close> the gate passes for the role superadmin and for no other.
\<close>

lemma auth_attaches_no_permissions:
  assumes "auth ev s hdr = Next ru"
  shows "ruPermissions ru = None"
    and "(requirePermission permission (Some ru) = Next ru) = (ruRole ru = ''superadmin'')"
proof -
  show p: "ruPermissions ru = None"
  proof (cases "jwt_verify (the hdr) (jwtSecret ev) (now ev)")
    case (Inl e)
    with assms show ?thesis
      by (cases e) (auto simp: auth_def split: if_splits)
  next
    case (Inr decoded)
    with assms show ?thesis
      by (auto simp: auth_def split: if_splits option.splits)
  qed
  show "(requirePermission permission (Some ru) = Next ru) = (ruRole ru = ''superadmin'')"
    by (simp add: requirePermission_def p)
qed

text \<open>
  Claim C8 at a concrete request. Alice is an admin and her stored permission set has
  \<^verbatim>\<open>manageUsers\<close> true. Her request passes \<^verbatim>\<open>auth\<close>, which attaches her id, email
  and role; the gate for \<^verbatim>\<open>manageUsers\<close> then finds no permission object on
  \<^verbatim>\<open>req.user\<close> and refuses her with the 403 that names the permission. The superadmin
  passes the same gate and the customer Bob is refused.
\<close>

theorem requirePermission_refuses_admin_behind_auth:
  "auth demoEnv demoState (Some aliceToken) = Next aliceReq \<and>
   map_option role (findById demoState (ruId aliceReq)) = Some ''admin'' \<and>
   map_option (\<lambda>u. manageUsers (permissions u)) (findById demoState (ruId aliceReq)) =
     Some True \<and>
   requirePermission ''manageUsers'' (Some aliceReq) =
     Respond \<lparr>code = 403,
              body = JObj [(''message'', JStr ''Required permission: manageUsers''),
                           (''currentRole'', JStr ''admin''),
                           (''missingPermission'', JStr ''manageUsers'')]\<rparr> \<and>
   auth demoEnv demoState (Some rootToken) = Next rootReq \<and>
   requirePermission ''manageUsers'' (Some rootReq) = Next rootReq \<and>
   auth demoEnv demoState (Some bobToken) = Next bobReq \<and>
   requirePermission ''manageUsers'' (Some bobReq) =
     Respond \<lparr>code = 403,
              body = JObj [(''message'', JStr ''Required permission: manageUsers''),
                           (''currentRole'', JStr ''user''),
                           (''missingPermission'', JStr ''manageUsers'')]\<rparr>"
  by (simp add: model demo)

subsection \<open>Token expiry\<close>

lemma verify_issued:
  "jwt_verify (fst (generateTokens ev i em r)) (jwtSecret ev) t =
     (if now ev div 1000 + 3600 \<le> t div 1000 then Inl TokenExpiredError
      else Inr (AccessClaims i em r))"
  by (simp add: generateTokens_def jwt_sign_def)

lemma verify_bad_signature:
  "(\<forall>p iat ex. tok \<noteq> Jwt secret p iat ex) \<Longrightarrow> jwt_verify tok secret t = Inl JsonWebTokenError"
  by (cases tok) auto

lemma auth_expired:
  "jwt_verify tok (jwtSecret ev) (now ev) = Inl TokenExpiredError \<Longrightarrow>
   auth ev s (Some tok) =
     Respond \<lparr>code = 401, body = JObj [(''message'', JStr ''Token has expired''),
                                       (''needsRefresh'', JBool True)]\<rparr>"
  by (cases tok) (auto simp: auth_def respond_def msg_def split: if_splits)

lemma auth_invalid:
  "jwt_verify tok (jwtSecret ev) (now ev) = Inl JsonWebTokenError \<Longrightarrow>
   \<exists>r. auth ev s (Some tok) = Respond r \<and> code r = 401 \<and>
       jget ''needsRefresh'' (body r) = Some (JBool False)"
  by (cases tok) (auto simp: auth_def respond_def msg_def split: if_splits)

lemma auth_refresh_only_expired:
  assumes "auth ev s hdr = Respond r" "jget ''needsRefresh'' (body r) = Some (JBool True)"
  shows "\<exists>tok. hdr = Some tok \<and> jwt_verify tok (jwtSecret ev) (now ev) = Inl TokenExpiredError"
proof (cases hdr)
  case None
  with assms show ?thesis by (auto simp: auth_def respond_def msg_def)
next
  case (Some tok)
  show ?thesis
  proof (cases "jwt_verify tok (jwtSecret ev) (now ev)")
    case (Inl e)
    with assms Some show ?thesis
      by (cases e) (auto simp: auth_def respond_def msg_def split: if_splits)
  next
    case (Inr p)
    with assms Some show ?thesis
      by (auto simp: auth_def respond_def msg_def split: if_splits option.splits)
  qed
qed

text \<open>
  Claim C9. An access token is issued with an expiry of one hour. Verified one hour and
  one second after it was issued (and at any time from its expiry on) it fails with
  \<^verbatim>\<open>TokenExpiredError\<close>, not with the error of an invalid token; before its expiry it
  verifies. The \<^verbatim>\<open>auth\<close> middleware answers the expired token with 401 and
  \<^verbatim>\<open>needsRefresh: true\<close>; a token that fails the signature check is invalid and is
  answered with 401 and \<^verbatim>\<open>needsRefresh: false\<close>; and \<^verbatim>\<open>needsRefresh: true\<close> is sent
  for an expired token only.
\<close>

theorem expired_token_offers_refresh:
  "(jwtSecret ev' = jwtSecret ev \<and> now ev' = now ev + 3600000 + 1000 \<longrightarrow>
      jwt_verify (fst (generateTokens ev i em r)) (jwtSecret ev') (now ev') = Inl TokenExpiredError \<and>
      auth ev' s (Some (fst (generateTokens ev i em r))) =
        Respond \<lparr>code = 401, body = JObj [(''message'', JStr ''Token has expired''),
                                          (''needsRefresh'', JBool True)]\<rparr>) \<and>
   (jwtSecret ev' = jwtSecret ev \<and> now ev div 1000 + 3600 \<le> now ev' div 1000 \<longrightarrow>
      jwt_verify (fst (generateTokens ev i em r)) (jwtSecret ev') (now ev') = Inl TokenExpiredError) \<and>
   (jwtSecret ev' = jwtSecret ev \<and> now ev' div 1000 < now ev div 1000 + 3600 \<longrightarrow>
      jwt_verify (fst (generateTokens ev i em r)) (jwtSecret ev') (now ev') =
        Inr (AccessClaims i em r)) \<and>
   ((\<forall>p iat ex. tok \<noteq> Jwt (jwtSecret ev) p iat ex) \<longrightarrow>
      jwt_verify tok (jwtSecret ev) (now ev) = Inl JsonWebTokenError \<and>
      (\<exists>r. auth ev s (Some tok) = Respond r \<and> code r = 401 \<and>
           jget ''needsRefresh'' (body r) = Some (JBool False))) \<and>
   (auth ev s hdr = Respond rsp \<and> jget ''needsRefresh'' (body rsp) = Some (JBool True) \<longrightarrow>
      (\<exists>t. hdr = Some t \<and> jwt_verify t (jwtSecret ev) (now ev) = Inl TokenExpiredError))"
proof -
  have late: "jwt_verify (fst (generateTokens ev i em r)) (jwtSecret ev') (now ev') =
                Inl TokenExpiredError"
    if "jwtSecret ev' = jwtSecret ev" "now ev div 1000 + 3600 \<le> now ev' div 1000"
    using that verify_issued [of ev i em r "now ev'"] by simp
  have hour: "now ev div 1000 + 3600 \<le> now ev' div 1000"
    if "now ev' = now ev + 3600000 + 1000"
    using that by simp
  have early: "jwt_verify (fst (generateTokens ev i em r)) (jwtSecret ev') (now ev') =
                 Inr (AccessClaims i em r)"
    if "jwtSecret ev' = jwtSecret ev" "now ev' div 1000 < now ev div 1000 + 3600"
    using that verify_issued [of ev i em r "now ev'"] by simp
  have forged: "jwt_verify tok (jwtSecret ev) (now ev) = Inl JsonWebTokenError"
    if "\<forall>p iat ex. tok \<noteq> Jwt (jwtSecret ev) p iat ex"
    using that by (rule verify_bad_signature)
  show ?thesis
    using late hour early forged auth_expired [of _ ev' s] auth_invalid [of tok ev s]
      auth_refresh_only_expired [of ev s hdr rsp]
    by blast
qed

theorem expired_token_witness:
  "jwt_verify (fst (generateTokens demoEnv 4 ''bob@x.com'' ''user'')) ''k'' (7200000 + 3600000 + 1000) =
     Inl TokenExpiredError \<and>
   auth (demoEnv\<lparr>now := 7200000 + 3600000 + 1000\<rparr>) demoState
        (Some (fst (generateTokens demoEnv 4 ''bob@x.com'' ''user''))) =
     Respond \<lparr>code = 401, body = JObj [(''message'', JStr ''Token has expired''),
                                       (''needsRefresh'', JBool True)]\<rparr> \<and>
   jwt_verify (fst (generateTokens demoEnv 4 ''bob@x.com'' ''user'')) ''k'' (7200000 + 3599000) =
     Inr (AccessClaims 4 ''bob@x.com'' ''user'') \<and>
   auth demoEnv demoState (Some (Jwt ''forged'' (AccessClaims 1 ''admin@pharmalink.com'' ''superadmin'') 7200 10800)) =
     Respond \<lparr>code = 401, body = JObj [(''message'', JStr ''Token is not valid''),
                                       (''needsRefresh'', JBool False)]\<rparr>"
  using expired_token_offers_refresh
          [where ev = demoEnv and ev' = "demoEnv\<lparr>now := 7200000 + 3600000 + 1000\<rparr>"
             and i = 4 and em = "''bob@x.com''" and r = "''user''" and s = demoState
             and tok = "Jwt ''forged'' (AccessClaims 1 ''admin@pharmalink.com'' ''superadmin'') 7200 10800"
             and hdr = None]
  by (simp add: model demo)

subsection \<open>Deleting an account\<close>

lemma find_after_delete: "find (\<lambda>u. uid u = i) (filter (\<lambda>v. uid v \<noteq> i) us) = None"
  by (simp add: find_None_iff)

lemma deleteUser_not_superadmin:
  "ruRole ru \<noteq> ''superadmin'' \<Longrightarrow>
   deleteUser ev s ru userId = (respond 403 (msg ''Only superadmins can delete users''), s)"
  by (simp add: deleteUser_def)

lemma deleteUser_superadmin_target:
  "findById s userId = Some u \<Longrightarrow> role u = ''superadmin'' \<Longrightarrow>
   code (fst (deleteUser ev s ru userId)) = 403 \<and> snd (deleteUser ev s ru userId) = s"
  by (simp add: deleteUser_def respond_def)

lemma deleteUser_permitted:
  assumes "ruRole ru = ''superadmin''" "findById s userId = Some u" "role u \<noteq> ''superadmin''"
  shows "deleteUser ev s ru userId =
           (if logStoreUp ev then
              (respond 200 (msg ''User deleted successfully''),
               \<lparr>users = filter (\<lambda>v. uid v \<noteq> userId) (users s),
                logs = logs s @
                  [\<lparr>level = ''warning'', message = ''User deleted by superadmin'',
                    logUser = Some (ruId ru), action = Some ''USER_DELETED'',
                    details = Some (JObj [(''deletedUserId'', JNum (uid u)),
                                          (''deletedUserEmail'', JStr (email u))]),
                    logTimestamp = now ev\<rparr>]\<rparr>)
            else (respond 500 (msg ''Error deleting user''), s))"
  using assms by (simp add: deleteUser_def SystemLog_create_def)

text \<open>
  Claim C6. A delete request is refused with 403 unless the actor's role is superadmin,
  and a request whose target has role superadmin is refused with 403 whatever the
  actor's role; in both cases nothing is deleted. A permitted deletion (superadmin
  actor, existing target that is not a superadmin) first appends a warning entry to
  the log and then removes the account: the account is gone afterwards and the entry is
  there, and when the log write is rejected the account is not removed.
\<close>

theorem deleteUser_guarded:
  "(ruRole ru \<noteq> ''superadmin'' \<longrightarrow>
      code (fst (deleteUser ev s ru userId)) = 403 \<and> snd (deleteUser ev s ru userId) = s) \<and>
   (findById s userId = Some u \<and> role u = ''superadmin'' \<longrightarrow>
      code (fst (deleteUser ev s ru userId)) = 403 \<and> snd (deleteUser ev s ru userId) = s) \<and>
   (ruRole ru = ''superadmin'' \<and> findById s userId = Some u \<and> role u \<noteq> ''superadmin'' \<and>
    logStoreUp ev \<longrightarrow>
      code (fst (deleteUser ev s ru userId)) = 200 \<and>
      findById (snd (deleteUser ev s ru userId)) userId = None \<and>
      (\<exists>e. logs (snd (deleteUser ev s ru userId)) = logs s @ [e] \<and> level e = ''warning'' \<and>
           action e = Some ''USER_DELETED'' \<and> logUser e = Some (ruId ru))) \<and>
   (ruRole ru = ''superadmin'' \<and> findById s userId = Some u \<and> role u \<noteq> ''superadmin'' \<and>
    \<not> logStoreUp ev \<longrightarrow>
      code (fst (deleteUser ev s ru userId)) = 500 \<and> snd (deleteUser ev s ru userId) = s)"
proof -
  have a: "ruRole ru \<noteq> ''superadmin'' \<Longrightarrow>
      code (fst (deleteUser ev s ru userId)) = 403 \<and> snd (deleteUser ev s ru userId) = s"
    by (simp add: deleteUser_not_superadmin respond_def)
  have b: "ruRole ru = ''superadmin'' \<Longrightarrow> findById s userId = Some u \<Longrightarrow>
      role u \<noteq> ''superadmin'' \<Longrightarrow> logStoreUp ev \<Longrightarrow>
      code (fst (deleteUser ev s ru userId)) = 200 \<and>
      findById (snd (deleteUser ev s ru userId)) userId = None \<and>
      (\<exists>e. logs (snd (deleteUser ev s ru userId)) = logs s @ [e] \<and> level e = ''warning'' \<and>
           action e = Some ''USER_DELETED'' \<and> logUser e = Some (ruId ru))"
    by (simp add: deleteUser_permitted respond_def findById_def find_after_delete)
  have c: "ruRole ru = ''superadmin'' \<Longrightarrow> findById s userId = Some u \<Longrightarrow>
      role u \<noteq> ''superadmin'' \<Longrightarrow> \<not> logStoreUp ev \<Longrightarrow>
      code (fst (deleteUser ev s ru userId)) = 500 \<and> snd (deleteUser ev s ru userId) = s"
    by (simp add: deleteUser_permitted respond_def)
  from a b c deleteUser_superadmin_target [of s userId u ev ru] show ?thesis by blast
qed

theorem deleteUser_witness:
  "deleteUser demoEnv demoState aliceReq 4 =
     (\<lparr>code = 403, body = JObj [(''message'', JStr ''Only superadmins can delete users'')]\<rparr>,
      demoState) \<and>
   deleteUser demoEnv demoState rootReq 1 =
     (\<lparr>code = 403, body = JObj [(''message'', JStr ''Superadmin users cannot be deleted'')]\<rparr>,
      demoState) \<and>
   code (fst (deleteUser demoEnv demoState rootReq 4)) = 200 \<and>
   findById (snd (deleteUser demoEnv demoState rootReq 4)) 4 = None \<and>
   map level (logs (snd (deleteUser demoEnv demoState rootReq 4))) = [''warning''] \<and>
   deleteUser (demoEnv\<lparr>logStoreUp := False\<rparr>) demoState rootReq 4 =
     (\<lparr>code = 500, body = JObj [(''message'', JStr ''Error deleting user'')]\<rparr>, demoState) \<and>
   DELETE_user demoEnv demoState (Some aliceToken) 1 =
     (\<lparr>code = 403, body = JObj [(''message'', JStr ''Only superadmins can delete users'')]\<rparr>,
      demoState)"
  using deleteUser_guarded [of aliceReq demoEnv demoState 4 bob]
        deleteUser_guarded [of rootReq demoEnv demoState 1 root]
        deleteUser_guarded [of rootReq demoEnv demoState 4 bob]
        deleteUser_guarded [of rootReq "demoEnv\<lparr>logStoreUp := False\<rparr>" demoState 4 bob]
  by (simp add: model demo)

subsection \<open>What a save does to the store\<close>

lemma find_replace_other:
  "i \<noteq> uid u \<Longrightarrow>
   find (\<lambda>x. uid x = i) (map (\<lambda>v. if uid v = uid u then u else v) us) =
     find (\<lambda>x. uid x = i) us"
  by (induction us) auto

lemma find_replace_same:
  "\<exists>v \<in> set us. uid v = uid u \<Longrightarrow>
   find (\<lambda>x. uid x = uid u) (map (\<lambda>v. if uid v = uid u then u else v) us) = Some u"
  by (induction us) auto

lemma find_replace:
  "\<exists>v \<in> set us. uid v = uid u \<Longrightarrow>
   find (\<lambda>x. uid x = i) (map (\<lambda>v. if uid v = uid u then u else v) us) =
     (if i = uid u then Some u else find (\<lambda>x. uid x = i) us)"
  by (simp add: find_replace_other find_replace_same)

lemma find_insert:
  "\<not> (\<exists>v \<in> set us. uid v = uid u) \<Longrightarrow>
   find (\<lambda>x. uid x = i) (us @ [u]) =
     (if i = uid u then Some u else find (\<lambda>x. uid x = i) us)"
  by (induction us) auto

lemma find_storeUser:
  "find (\<lambda>x. uid x = i) (storeUser u us) =
     (if i = uid u then Some u else find (\<lambda>x. uid x = i) us)"
  unfolding storeUser_def using find_replace [of us u i] find_insert [of us u i]
  by (cases "\<exists>v \<in> set us. uid v = uid u") simp_all

lemma find_Some_uid: "find (\<lambda>x. uid x = i) us = Some u \<Longrightarrow> uid u = i"
  by (auto simp: find_Some_iff)

lemma findById_uid: "findById s i = Some u \<Longrightarrow> uid u = i"
  unfolding findById_def by (rule find_Some_uid)

lemma save_Inr:
  assumes "save ev d s = Inr (d', s')"
  shows "\<exists>dd. preSave ev d = Inr dd \<and> data d' = data dd \<and>
              s' = s\<lparr>users := storeUser (data dd) (users s)\<rparr> \<and>
              preValidate d = None \<and> schemaValidation (data d)"
  using assms unfolding save_def
  by (auto split: option.splits if_splits sum.splits)

lemma findById_after_save:
  assumes "save ev d s = Inr (d', s')"
  shows "findById s' i = (if i = uid (data d') then Some (data d') else findById s i)"
    and "logs s' = logs s"
  using save_Inr [OF assms] by (auto simp: findById_def find_storeUser)

text \<open>The save hook on a document whose password is untouched and that is not skipped.\<close>

lemma preSave_plain:
  "\<not> skipMiddleware d \<Longrightarrow> PathPassword \<notin> modified d \<Longrightarrow>
   preSave ev d = (case roleStep d of Inl m \<Rightarrow> Inl m | Inr d2 \<Rightarrow> Inr (statusStep ev d2))"
  by (simp add: preSave_def isModified_def)

lemma roleStep_frame:
  assumes "roleStep d = Inr d2"
  shows "uid (data d2) = uid (data d)" "role (data d2) = role (data d)"
        "status (data d2) = status (data d)" "storeDetails (data d2) = storeDetails (data d)"
        "statusHistory (data d2) = statusHistory (data d)" "email (data d2) = email (data d)"
        "isNew d2 = isNew d" "skipMiddleware d2 = skipMiddleware d"
        "(PathStatus \<in> modified d2) = (PathStatus \<in> modified d)"
  using assms unfolding roleStep_def setPermissions_def touch_def
  by (auto split: if_splits option.splits)

lemma roleStep_permissions:
  assumes "roleStep d = Inr d2"
  shows "permissions (data d2) =
           (if PathRole \<in> modified d \<or> (role (data d) = ''vendor'' \<and> isNew d)
            then rolePermissions (role (data d)) else permissions (data d))"
  using assms unfolding roleStep_def setPermissions_def touch_def isModified_def
  by (auto simp: rolePermissions_def split: if_splits option.splits)

lemma statusStep_frame:
  "uid (data (statusStep ev d)) = uid (data d)" "role (data (statusStep ev d)) = role (data d)"
  "status (data (statusStep ev d)) = status (data d)"
  "storeDetails (data (statusStep ev d)) = storeDetails (data d)"
  "permissions (data (statusStep ev d)) = permissions (data d)"
  "email (data (statusStep ev d)) = email (data d)"
  "password (data (statusStep ev d)) = password (data d)"
  by (simp_all add: statusStep_def unshiftHistory_def touch_def)

lemma statusStep_history:
  "statusHistory (data (statusStep ev d)) =
     (if PathStatus \<in> modified d
      then \<lparr>entryStatus = status (data d), reason = None, timestamp = now ev,
            updatedBy = None\<rparr> # statusHistory (data d)
      else statusHistory (data d))"
  by (simp add: statusStep_def unshiftHistory_def touch_def isModified_def)

subsection \<open>The vendor password reset\<close>

lemma save_new_password:
  assumes "schemaValidation u" "role u = ''vendor''"
  shows "save ev (setPassword (Bcrypt sl p) (loaded u)) s =
           Inr (\<lparr>data = u\<lparr>password := Bcrypt sl p\<rparr>, isNew = False, skipMiddleware = False,
                 modified = {}\<rparr>,
                s\<lparr>users := storeUser (u\<lparr>password := Bcrypt sl p\<rparr>) (users s)\<rparr>)"
proof -
  let ?d = "setPassword (Bcrypt sl p) (loaded u)"
  have d: "data ?d = u\<lparr>password := Bcrypt sl p\<rparr>" "isNew ?d = False" "skipMiddleware ?d = False"
    "modified ?d \<subseteq> {PathPassword}"
    by (auto simp: setPassword_def loaded_def touch_def)
  have v: "preValidate ?d = None"
    using d(4) by (auto simp: preValidate_def isModified_def d(1,2))
  have sv: "schemaValidation (data ?d)"
    using assms(1) by (simp add: d(1) schemaValidation_def)
  have hook: "preSave ev ?d = Inr ?d"
  proof (cases "PathPassword \<in> modified ?d")
    case True
    then show ?thesis by (simp add: preSave_def isModified_def d(1,3))
  next
    case False
    with d(4) have "modified ?d = {}" by auto
    then show ?thesis
      by (simp add: preSave_def isModified_def d(1,2,3) roleStep_def statusStep_def)
  qed
  show ?thesis
    unfolding save_def using v sv hook
    by (simp add: d(1,2) isModified_def setPassword_def loaded_def touch_def)
qed

text \<open>
  Claim C10. The reset route takes nothing but an email. When the email, lowercased and
  trimmed as the query casts it, is that of a vendor account (one that satisfies the schema, as every saved account
  does), the request replaces the account's password by the bcrypt hash of the fixed
  value \<^verbatim>\<open>Vendor@123\<close>, so that this value then passes the password check, and, the log
  write succeeding, answers 200 with that plaintext as \<^verbatim>\<open>newPassword\<close>. No token,
  role or proof of ownership enters the handler.
\<close>

theorem resetVendorPassword_fixed_password:
  assumes "find (\<lambda>u. email u = castEmail (toLowerCase e) \<and> role u = ''vendor'') (users s) =
             Some u"
    and "schemaValidation u"
  shows "findById (snd (resetVendorPassword ev s (Some e))) (uid u) =
           Some (u\<lparr>password := bcrypt_hash ''Vendor@123'' (salt ev)\<rparr>) \<and>
         bcrypt_compare ''Vendor@123''
           (password (the (findById (snd (resetVendorPassword ev s (Some e))) (uid u)))) \<and>
         (logStoreUp ev \<longrightarrow>
            fst (resetVendorPassword ev s (Some e)) =
              \<lparr>code = 200,
               body = JObj [(''message'', JStr ''Password has been reset successfully''),
                            (''email'', JStr (email u)),
                            (''newPassword'', JStr ''Vendor@123'')]\<rparr>)"
proof -
  from assms(1) have r: "role u = ''vendor''" by (auto simp: find_Some_iff)
  note sv = save_new_password [OF assms(2) r, of ev "salt ev" "''Vendor@123''" s]
  have stored: "findById (snd (resetVendorPassword ev s (Some e))) (uid u) =
                  Some (u\<lparr>password := bcrypt_hash ''Vendor@123'' (salt ev)\<rparr>)"
    using assms(1) sv
    by (simp add: resetVendorPassword_def SystemLog_create_def findById_def find_storeUser)
  have answer: "logStoreUp ev \<Longrightarrow>
      fst (resetVendorPassword ev s (Some e)) =
        \<lparr>code = 200,
         body = JObj [(''message'', JStr ''Password has been reset successfully''),
                      (''email'', JStr (email u)),
                      (''newPassword'', JStr ''Vendor@123'')]\<rparr>"
    using assms(1) sv
    by (simp add: resetVendorPassword_def SystemLog_create_def respond_def msg_def)
  from stored answer show ?thesis by simp
qed

theorem resetVendorPassword_witness:
  "find (\<lambda>u. email u = castEmail (toLowerCase '' Acme@X.com '') \<and> role u = ''vendor'')
     (users demoState) = Some acme \<and>
   schemaValidation acme \<and>
   password acme = Bcrypt ''s0'' ''secret1'' \<and>
   findById (snd (resetVendorPassword demoEnv demoState (Some '' Acme@X.com ''))) 3 =
     Some (acme\<lparr>password := Bcrypt ''s1'' ''Vendor@123''\<rparr>) \<and>
   fst (resetVendorPassword demoEnv demoState (Some '' Acme@X.com '')) =
     \<lparr>code = 200,
      body = JObj [(''message'', JStr ''Password has been reset successfully''),
                   (''email'', JStr ''acme@x.com''),
                   (''newPassword'', JStr ''Vendor@123'')]\<rparr>"
proof -
  have f: "find (\<lambda>u. email u = castEmail (toLowerCase '' Acme@X.com '') \<and> role u = ''vendor'')
             (users demoState) = Some acme"
    by (simp add: model demo)
  have v: "schemaValidation acme"
    by (simp add: model demo)
  show ?thesis
    using f v resetVendorPassword_fixed_password [OF f v, of demoEnv]
    by (simp add: demoEnv_def acme_def)
qed

subsection \<open>The admin update, step by step\<close>

lemma touch_proj:
  "data (touch p c d) = data d" "isNew (touch p c d) = isNew d"
  "skipMiddleware (touch p c d) = skipMiddleware d"
  "modified (touch p c d) = (if isNew d \<or> c then insert p (modified d) else modified d)"
  by (simp_all add: touch_def)

lemmas setters = setStatus_def setRole_def setStoreDetails_def setPassword_def
  setPermissions_def setLastLogin_def unshiftHistory_def touch_proj loaded_def

lemma applyUpdate_tracking:
  "uid (data (applyUpdate ev ru b (loaded u))) = uid u"
  "\<not> skipMiddleware (applyUpdate ev ru b (loaded u))"
  "\<not> isNew (applyUpdate ev ru b (loaded u))"
  "PathPassword \<notin> modified (applyUpdate ev ru b (loaded u))"
  "permissions (data (applyUpdate ev ru b (loaded u))) = permissions u"
  by (simp_all add: applyUpdate_def statusUpdate_def setters Let_def)

lemma applyUpdate_role:
  "role (data (applyUpdate ev ru b (loaded u))) =
     (if truthy (ubRole b) then the (ubRole b) else role u)"
  "(PathRole \<in> modified (applyUpdate ev ru b (loaded u))) =
     (truthy (ubRole b) \<and> the (ubRole b) \<noteq> role u)"
  by (auto simp: applyUpdate_def statusUpdate_def setters Let_def)

lemma applyUpdate_status:
  "status (data (applyUpdate ev ru b (loaded u))) =
     (if truthy (ubStatus b) then the (ubStatus b) else status u)"
  "(PathStatus \<in> modified (applyUpdate ev ru b (loaded u))) =
     (truthy (ubStatus b) \<and> the (ubStatus b) \<noteq> status u)"
  "statusHistory (data (applyUpdate ev ru b (loaded u))) =
     (if truthy (ubStatus b)
      then \<lparr>entryStatus = the (ubStatus b), reason = ubReason b, timestamp = now ev,
            updatedBy = None\<rparr> # statusHistory u
      else statusHistory u)"
  by (auto simp: applyUpdate_def statusUpdate_def setters Let_def reqUser_id_def)

lemma applyUpdate_store:
  "storeDetails (data (applyUpdate ev ru b (loaded u))) =
     (if ubStatus b = Some ''active'' \<and> role u = ''vendor''
      then Some ((case storeDetails u of None \<Rightarrow> emptyStore | Some x \<Rightarrow> x)\<lparr>active := True\<rparr>)
      else storeDetails u)"
  by (cases "ubStatus b") (auto simp: applyUpdate_def statusUpdate_def setters Let_def)

text \<open>
  Either the handler leaves the store as it was and does not answer 200, or the
  document that the save hook returned has been written.
\<close>

lemma updateUser_cases:
  assumes "findById s i = Some u"
  shows "(snd (updateUser ev s ru i b) = s \<and> code (fst (updateUser ev s ru i b)) \<noteq> 200) \<or>
         (\<exists>dd s1. preSave ev (applyUpdate ev ru b (loaded u)) = Inr dd \<and>
                  save ev (applyUpdate ev ru b (loaded u)) s =
                    Inr (dd\<lparr>isNew := False, modified := {}\<rparr>, s1) \<and>
                  users (snd (updateUser ev s ru i b)) = storeUser (data dd) (users s) \<and>
                  \<not> (role u = ''superadmin'' \<and> ruRole ru \<noteq> ''superadmin'') \<and>
                  \<not> (ubRole b = Some ''superadmin'' \<and> ruRole ru \<noteq> ''superadmin''))"
proof (cases "save ev (applyUpdate ev ru b (loaded u)) s")
  case (Inl err)
  with assms show ?thesis
    by (simp add: updateUser_def respond_def)
next
  case (Inr r)
  obtain d' s1 where r: "r = (d', s1)" by (cases r)
  from Inr r have sv: "save ev (applyUpdate ev ru b (loaded u)) s = Inr (d', s1)" by simp
  then obtain dd where dd: "preSave ev (applyUpdate ev ru b (loaded u)) = Inr dd"
    "d' = dd\<lparr>isNew := False, modified := {}\<rparr>"
    "s1 = s\<lparr>users := storeUser (data dd) (users s)\<rparr>"
    unfolding save_def by (auto split: option.splits if_splits sum.splits)
  show ?thesis
    using assms sv dd
    by (auto simp: updateUser_def respond_def SystemLog_create_def)
qed

lemma updateUser_hook:
  assumes "preSave ev (applyUpdate ev ru b (loaded u)) = Inr dd"
  shows "\<exists>d2. roleStep (applyUpdate ev ru b (loaded u)) = Inr d2 \<and> dd = statusStep ev d2"
  using assms applyUpdate_tracking(2,4) [of ev ru b u]
  by (auto simp: preSave_plain split: sum.splits)

lemma updateUser_target:
  assumes "findById s i = Some u"
    and "snd (updateUser ev s ru i b) \<noteq> s \<or> code (fst (updateUser ev s ru i b)) = 200"
  shows "\<exists>d2. roleStep (applyUpdate ev ru b (loaded u)) = Inr d2 \<and>
              findById (snd (updateUser ev s ru i b)) i = Some (data (statusStep ev d2)) \<and>
              \<not> (ubRole b = Some ''superadmin'' \<and> ruRole ru \<noteq> ''superadmin'')"
proof -
  from updateUser_cases [OF assms(1), of ev ru b] assms(2)
  obtain dd where dd: "preSave ev (applyUpdate ev ru b (loaded u)) = Inr dd"
    "users (snd (updateUser ev s ru i b)) = storeUser (data dd) (users s)"
    "\<not> (ubRole b = Some ''superadmin'' \<and> ruRole ru \<noteq> ''superadmin'')"
    by blast
  from updateUser_hook [OF dd(1)] obtain d2
    where d2: "roleStep (applyUpdate ev ru b (loaded u)) = Inr d2" "dd = statusStep ev d2"
    by blast
  have "uid (data dd) = i"
    using d2 roleStep_frame(1) [OF d2(1)] applyUpdate_tracking(1) [of ev ru b u]
      findById_uid [OF assms(1)]
    by (simp add: statusStep_frame)
  then have "findById (snd (updateUser ev s ru i b)) i = Some (data dd)"
    by (simp add: findById_def dd(2) find_storeUser)
  with d2 dd(3) show ?thesis by blast
qed

subsection \<open>Activating a vendor\<close>

text \<open>
  Claim C7. An admin update of a target whose role is vendor that changes the stored
  status to active also leaves the target's store profile marked active; and every
  update with \<^verbatim>\<open>status: 'active'\<close> of such a target that answers 200 stores the status
  active together with an active store profile.
\<close>

theorem activation_activates_store:
  assumes "findById s i = Some u" and "role u = ''vendor''"
  shows "(\<forall>u'. findById (snd (updateUser ev s ru i b)) i = Some u' \<and>
               status u \<noteq> ''active'' \<and> status u' = ''active'' \<longrightarrow>
               storeActive (storeDetails u')) \<and>
         (ubStatus b = Some ''active'' \<and> code (fst (updateUser ev s ru i b)) = 200 \<longrightarrow>
            (\<exists>u'. findById (snd (updateUser ev s ru i b)) i = Some u' \<and>
                  status u' = ''active'' \<and> storeActive (storeDetails u')))"
proof -
  have changed: "storeActive (storeDetails u')"
    if u': "findById (snd (updateUser ev s ru i b)) i = Some u'"
      and st: "status u \<noteq> ''active''" "status u' = ''active''" for u'
  proof -
    have "snd (updateUser ev s ru i b) \<noteq> s"
      using u' st assms(1) by auto
    from updateUser_target [OF assms(1), of ev ru b] this obtain d2
      where d2: "roleStep (applyUpdate ev ru b (loaded u)) = Inr d2"
        "findById (snd (updateUser ev s ru i b)) i = Some (data (statusStep ev d2))"
      by blast
    from d2(2) u' have eq: "u' = data (statusStep ev d2)" by simp
    have s': "status u' = (if truthy (ubStatus b) then the (ubStatus b) else status u)"
      by (simp add: eq statusStep_frame roleStep_frame(3) [OF d2(1)] applyUpdate_status(1))
    with st have "ubStatus b = Some ''active''"
      by (cases "ubStatus b") (auto split: if_splits)
    then show ?thesis
      using assms(2)
      by (simp add: eq statusStep_frame roleStep_frame(4) [OF d2(1)] applyUpdate_store)
  qed
  have ok: "\<exists>u'. findById (snd (updateUser ev s ru i b)) i = Some u' \<and>
                 status u' = ''active'' \<and> storeActive (storeDetails u')"
    if b: "ubStatus b = Some ''active''" and c: "code (fst (updateUser ev s ru i b)) = 200"
  proof -
    from updateUser_target [OF assms(1), of ev ru b] c obtain d2
      where d2: "roleStep (applyUpdate ev ru b (loaded u)) = Inr d2"
        "findById (snd (updateUser ev s ru i b)) i = Some (data (statusStep ev d2))"
      by blast
    show ?thesis
      using d2(2) b assms(2)
      by (simp add: statusStep_frame roleStep_frame(3,4) [OF d2(1)] applyUpdate_status(1)
          applyUpdate_store)
  qed
  from changed ok show ?thesis by blast
qed

theorem activation_witness:
  "findById demoState 3 = Some acme \<and> role acme = ''vendor'' \<and> status acme = ''pending'' \<and>
   \<not> storeActive (storeDetails acme) \<and>
   code (fst (updateUser demoEnv demoState aliceReq 3
               \<lparr>ubStatus = Some ''active'', ubRole = None, ubReason = None\<rparr>)) = 200 \<and>
   map_option status
     (findById (snd (updateUser demoEnv demoState aliceReq 3
                      \<lparr>ubStatus = Some ''active'', ubRole = None, ubReason = None\<rparr>)) 3) =
     Some ''active'' \<and>
   map_option (\<lambda>v. storeActive (storeDetails v))
     (findById (snd (updateUser demoEnv demoState aliceReq 3
                      \<lparr>ubStatus = Some ''active'', ubRole = None, ubReason = None\<rparr>)) 3) =
     Some True"
proof -
  have f: "findById demoState 3 = Some acme" by (simp add: model demo)
  have r: "role acme = ''vendor''" by (simp add: acme_def)
  have c: "code (fst (updateUser demoEnv demoState aliceReq 3
               \<lparr>ubStatus = Some ''active'', ubRole = None, ubReason = None\<rparr>)) = 200"
    by (simp add: model demo Let_def)
  from activation_activates_store [OF f r, of demoEnv aliceReq
      "\<lparr>ubStatus = Some ''active'', ubRole = None, ubReason = None\<rparr>"] c
  obtain u' where "findById (snd (updateUser demoEnv demoState aliceReq 3
                      \<lparr>ubStatus = Some ''active'', ubRole = None, ubReason = None\<rparr>)) 3 = Some u'"
    "status u' = ''active''" "storeActive (storeDetails u')"
    by auto
  with f r c show ?thesis by (simp add: acme_def)
qed

subsection \<open>Vendor registration and the two login gates\<close>

lemma fold_max_bound: "a \<le> fold max xs a \<and> (\<forall>x \<in> set xs. x \<le> fold max xs (a::nat))"
proof (induction xs arbitrary: a)
  case Nil
  then show ?case by simp
next
  case (Cons y ys)
  from Cons.IH [of "max y a"] show ?case by auto
qed

lemma freshId_fresh: "v \<in> set us \<Longrightarrow> uid v \<noteq> freshId us"
  using fold_max_bound [of 0 "map uid us"] by (fastforce simp: freshId_def)

lemma storeUser_fresh: "uid u = freshId us \<Longrightarrow> storeUser u us = us @ [u]"
  using freshId_fresh [of _ us] by (auto simp: storeUser_def)

lemma newUserDoc_vendor:
  assumes "rbRole b = Some ''vendor''"
  shows "role (data (newUserDoc ev s b)) = ''vendor''"
        "status (data (newUserDoc ev s b)) = ''pending''"
        "\<not> storeActive (storeDetails (data (newUserDoc ev s b)))"
        "uid (data (newUserDoc ev s b)) = freshId (users s)"
        "skipMiddleware (newUserDoc ev s b)"
  using assms by (simp_all add: newUserDoc_def Let_def)

lemma register_created:
  assumes "code (fst (register ev s b)) = 201"
  shows "users (snd (register ev s b)) = users s @ [data (newUserDoc ev s b)]"
proof -
  from assms obtain d s1 where sv: "save ev (newUserDoc ev s b) s = Inr (d, s1)"
    by (auto simp: register_def respond_def split: if_splits option.splits sum.splits
        saveError.splits)
  have skip: "skipMiddleware (newUserDoc ev s b)"
    by (simp add: newUserDoc_def Let_def)
  from save_Inr [OF sv] skip
  have s1: "users s1 = storeUser (data (newUserDoc ev s b)) (users s)"
    by (auto simp: preSave_def)
  have "uid (data (newUserDoc ev s b)) = freshId (users s)"
    by (simp add: newUserDoc_def Let_def)
  with s1 have "users s1 = users s @ [data (newUserDoc ev s b)]"
    by (simp add: storeUser_fresh)
  moreover have "users (snd (register ev s b)) = users s1"
    using assms sv
    by (auto simp: register_def respond_def SystemLog_create_def Let_def
        split: if_splits option.splits)
  ultimately show ?thesis by simp
qed

lemma login_gates:
  assumes "loginSchema ev b" "lbRole b = Some ''vendor''"
    and "findOneByEmail s (toLowerCase (the (lbEmail b))) = Some u" "role u = ''vendor''"
    and "bcrypt_compare (the (lbPassword b)) (password u)"
  shows "status u \<noteq> ''active'' \<Longrightarrow>
           login ev s b =
             (\<lparr>code = 403,
               body = JObj [(''message'', JStr ''Your vendor account is pending approval''),
                            (''status'', JStr (status u))]\<rparr>, s)"
    and "status u = ''active'' \<Longrightarrow> \<not> storeActive (storeDetails u) \<Longrightarrow>
           login ev s b =
             (\<lparr>code = 403,
               body = JObj [(''message'', JStr ''Your store is not yet activated''),
                            (''status'', JStr ''store_inactive'')]\<rparr>, s)"
  using assms by (simp_all add: login_def respond_def msg_def)

lemma login_success_vendor:
  assumes "findOneByEmail s (toLowerCase (the (lbEmail b))) = Some u" "role u = ''vendor''"
    and "code (fst (login ev s b)) = 200"
  shows "status u = ''active'' \<and> storeActive (storeDetails u)"
  using assms
  by (auto simp: login_def respond_def msg_def SystemLog_create_def
      split: if_splits option.splits sum.splits)

text \<open>
  Claim C4. A vendor registration that succeeds stores an account with status pending
  and a store profile that is not active. A login with \<^verbatim>\<open>role: 'vendor'\<close> and the right
  password for a vendor account is refused with 403 and the pending-approval message
  unless the status is active; with the status active it is refused with 403 and the
  store-inactive message unless the store profile is active: two gates, the status
  first. And no login to a vendor account answers 200 unless both hold.
\<close>

theorem vendor_login_gates:
  "(code (fst (register ev s rb)) = 201 \<and> rbRole rb = Some ''vendor'' \<longrightarrow>
      (\<exists>u'. users (snd (register ev s rb)) = users s @ [u'] \<and> role u' = ''vendor'' \<and>
            status u' = ''pending'' \<and> \<not> storeActive (storeDetails u'))) \<and>
   (loginSchema ev b \<and> lbRole b = Some ''vendor'' \<and>
    findOneByEmail s (toLowerCase (the (lbEmail b))) = Some u \<and> role u = ''vendor'' \<and>
    bcrypt_compare (the (lbPassword b)) (password u) \<and> status u \<noteq> ''active'' \<longrightarrow>
      login ev s b =
        (\<lparr>code = 403,
          body = JObj [(''message'', JStr ''Your vendor account is pending approval''),
                       (''status'', JStr (status u))]\<rparr>, s)) \<and>
   (loginSchema ev b \<and> lbRole b = Some ''vendor'' \<and>
    findOneByEmail s (toLowerCase (the (lbEmail b))) = Some u \<and> role u = ''vendor'' \<and>
    bcrypt_compare (the (lbPassword b)) (password u) \<and> status u = ''active'' \<and>
    \<not> storeActive (storeDetails u) \<longrightarrow>
      login ev s b =
        (\<lparr>code = 403,
          body = JObj [(''message'', JStr ''Your store is not yet activated''),
                       (''status'', JStr ''store_inactive'')]\<rparr>, s)) \<and>
   (findOneByEmail s (toLowerCase (the (lbEmail b))) = Some u \<and> role u = ''vendor'' \<and>
    code (fst (login ev s b)) = 200 \<longrightarrow>
      status u = ''active'' \<and> storeActive (storeDetails u))"
proof -
  have reg: "\<exists>u'. users (snd (register ev s rb)) = users s @ [u'] \<and> role u' = ''vendor'' \<and>
                 status u' = ''pending'' \<and> \<not> storeActive (storeDetails u')"
    if "code (fst (register ev s rb)) = 201" "rbRole rb = Some ''vendor''"
    using register_created [OF that(1)] newUserDoc_vendor(1,2,3) [OF that(2), of ev s]
    by simp
  from reg login_gates [of ev b s u] login_success_vendor [of s b u ev]
  show ?thesis by blast
qed

theorem vendor_login_witness:
  "code (fst (register demoEnv demoState zedBody)) = 201 \<and>
   map status (users (snd (register demoEnv demoState zedBody))) =
     [''active'', ''active'', ''pending'', ''active'', ''pending''] \<and>
   code (fst (login demoEnv (snd (register demoEnv demoState zedBody)) zedLogin)) = 403 \<and>
   login demoEnv demoState acmeLogin =
     (\<lparr>code = 403,
       body = JObj [(''message'', JStr ''Your vendor account is pending approval''),
                    (''status'', JStr ''pending'')]\<rparr>, demoState) \<and>
   login demoEnv halfActiveState acmeLogin =
     (\<lparr>code = 403,
       body = JObj [(''message'', JStr ''Your store is not yet activated''),
                    (''status'', JStr ''store_inactive'')]\<rparr>, halfActiveState) \<and>
   code (fst (login demoEnv (snd (updateUser demoEnv demoState aliceReq 3 activate))
               acmeLogin)) = 200"
proof -
  have r: "code (fst (register demoEnv demoState zedBody)) = 201"
    by (simp add: model demo Let_def)
  have st: "map status (users (snd (register demoEnv demoState zedBody))) =
              [''active'', ''active'', ''pending'', ''active'', ''pending'']"
    by (simp add: model demo Let_def)
  have z: "code (fst (login demoEnv (snd (register demoEnv demoState zedBody)) zedLogin)) = 403"
    by (simp add: model demo Let_def)
  have ok: "code (fst (login demoEnv (snd (updateUser demoEnv demoState aliceReq 3 activate))
               acmeLogin)) = 200"
    by (simp add: model demo Let_def)
  have f1: "findOneByEmail demoState (toLowerCase (the (lbEmail acmeLogin))) = Some acme"
    by (simp add: model demo)
  have f2: "findOneByEmail halfActiveState (toLowerCase (the (lbEmail acmeLogin))) =
              Some (acme\<lparr>status := ''active''\<rparr>)"
    by (simp add: model demo)
  have sch: "loginSchema demoEnv acmeLogin"
    by (simp add: model demo)
  have g1: "login demoEnv demoState acmeLogin =
     (\<lparr>code = 403,
       body = JObj [(''message'', JStr ''Your vendor account is pending approval''),
                    (''status'', JStr ''pending'')]\<rparr>, demoState)"
    using vendor_login_gates [of demoEnv demoState zedBody acmeLogin acme] f1 sch
    by (simp add: acme_def acmeLogin_def)
  have g2: "login demoEnv halfActiveState acmeLogin =
     (\<lparr>code = 403,
       body = JObj [(''message'', JStr ''Your store is not yet activated''),
                    (''status'', JStr ''store_inactive'')]\<rparr>, halfActiveState)"
    using vendor_login_gates [of demoEnv halfActiveState zedBody acmeLogin
        "acme\<lparr>status := ''active''\<rparr>"] f2 sch
    by (simp add: acme_def acmeLogin_def)
  from r st z g1 g2 ok show ?thesis by blast
qed

subsection \<open>Failed logins\<close>

lemma login_unknown_email:
  assumes "loginSchema ev b" "findOneByEmail s (toLowerCase (the (lbEmail b))) = None"
  shows "login ev s b =
           (\<lparr>code = 400, body = JObj [(''message'', JStr ''Account not found with this email'')]\<rparr>,
            s)"
  using assms by (simp add: login_def respond_def msg_def)

lemma login_wrong_password:
  assumes "loginSchema ev b" "findOneByEmail s (toLowerCase (the (lbEmail b))) = Some u"
    and "lbRole b = None \<or> lbRole b = Some (role u) \<or>
         (lbRole b = Some ''admin'' \<and> role u = ''superadmin'')"
    and "\<not> bcrypt_compare (the (lbPassword b)) (password u)" "logStoreUp ev"
  shows "fst (login ev s b) = \<lparr>code = 400, body = JObj [(''message'', JStr ''Invalid password'')]\<rparr>"
    and "users (snd (login ev s b)) = users s"
  using assms by (auto simp: login_def respond_def msg_def SystemLog_create_def)

text \<open>
  Claim C5, as the code has it. A login with an email that matches no account is
  answered with status 400 and the message \<^verbatim>\<open>Account not found with this email\<close>; a
  login with the email of an account and a wrong password (the role absent or fitting
  the account, the log write succeeding) is answered with status 400 and the message
  \<^verbatim>\<open>Invalid password\<close>. The status is the same; the bodies differ, so the caller can
  tell which of the two happened.
\<close>

theorem failed_logins_same_status_distinct_message:
  assumes "loginSchema ev b1" "findOneByEmail s (toLowerCase (the (lbEmail b1))) = None"
    and "loginSchema ev b2" "findOneByEmail s (toLowerCase (the (lbEmail b2))) = Some u"
    and "lbRole b2 = None \<or> lbRole b2 = Some (role u) \<or>
         (lbRole b2 = Some ''admin'' \<and> role u = ''superadmin'')"
    and "\<not> bcrypt_compare (the (lbPassword b2)) (password u)" "logStoreUp ev"
  shows "fst (login ev s b1) =
           \<lparr>code = 400, body = JObj [(''message'', JStr ''Account not found with this email'')]\<rparr> \<and>
         fst (login ev s b2) =
           \<lparr>code = 400, body = JObj [(''message'', JStr ''Invalid password'')]\<rparr> \<and>
         code (fst (login ev s b1)) = code (fst (login ev s b2)) \<and>
         body (fst (login ev s b1)) \<noteq> body (fst (login ev s b2))"
  using login_unknown_email [OF assms(1,2)] login_wrong_password(1) [OF assms(3-7)]
  by simp

theorem failed_logins_witness:
  "loginSchema demoEnv nobodyLogin \<and> loginSchema demoEnv bobWrongLogin \<and>
   findOneByEmail demoState (toLowerCase (the (lbEmail nobodyLogin))) = None \<and>
   findOneByEmail demoState (toLowerCase (the (lbEmail bobWrongLogin))) = Some bob \<and>
   fst (login demoEnv demoState nobodyLogin) =
     \<lparr>code = 400, body = JObj [(''message'', JStr ''Account not found with this email'')]\<rparr> \<and>
   fst (login demoEnv demoState bobWrongLogin) =
     \<lparr>code = 400, body = JObj [(''message'', JStr ''Invalid password'')]\<rparr>"
proof -
  have a: "loginSchema demoEnv nobodyLogin" "loginSchema demoEnv bobWrongLogin"
    by (simp_all add: model demo nobodyLogin_def bobWrongLogin_def)
  have f1: "findOneByEmail demoState (toLowerCase (the (lbEmail nobodyLogin))) = None"
    by (simp add: model demo nobodyLogin_def)
  have f2: "findOneByEmail demoState (toLowerCase (the (lbEmail bobWrongLogin))) = Some bob"
    by (simp add: model demo bobWrongLogin_def)
  have r: "lbRole bobWrongLogin = None \<or> lbRole bobWrongLogin = Some (role bob) \<or>
           (lbRole bobWrongLogin = Some ''admin'' \<and> role bob = ''superadmin'')"
    by (simp add: bobWrongLogin_def)
  have p: "\<not> bcrypt_compare (the (lbPassword bobWrongLogin)) (password bob)"
    by (simp add: bobWrongLogin_def bob_def)
  have l: "logStoreUp demoEnv" by (simp add: demoEnv_def)
  from failed_logins_same_status_distinct_message [OF a(1) f1 a(2) f2 r p l] a f1 f2
  show ?thesis by simp
qed

text \<open>
  The two failures side by side on the demo store: the same password guess, once with
  an unknown email and once with Bob's. The responses are not the same response.
\<close>

theorem failed_logins_distinguishable:
  "findOneByEmail demoState (toLowerCase ''nobody@x.com'') = None \<and>
   findOneByEmail demoState (toLowerCase ''bob@x.com'') = Some bob \<and>
   fst (login demoEnv demoState nobodyLogin) =
     \<lparr>code = 400, body = JObj [(''message'', JStr ''Account not found with this email'')]\<rparr> \<and>
   fst (login demoEnv demoState bobWrongLogin) =
     \<lparr>code = 400, body = JObj [(''message'', JStr ''Invalid password'')]\<rparr> \<and>
   fst (login demoEnv demoState nobodyLogin) \<noteq> fst (login demoEnv demoState bobWrongLogin)"
  by (simp add: model demo)

subsection \<open>Setting the role superadmin\<close>

text \<open>The update handler refuses the role superadmin from an actor who is not one.\<close>

lemma updateUser_superadmin_guard:
  assumes "findById s i = Some u" "ubRole b = Some ''superadmin''" "ruRole ru \<noteq> ''superadmin''"
  shows "code (fst (updateUser ev s ru i b)) = 403 \<and> snd (updateUser ev s ru i b) = s"
  using assms by (simp add: updateUser_def respond_def)

text \<open>
  Claim C2 at a concrete request. Alice, whose role is admin, asks the promote route to
  make Bob a superadmin: the route answers 200 and Bob's stored role is superadmin. The
  same request to the update route is refused with 403 and leaves Bob as he was.
\<close>

theorem promote_lets_admin_create_superadmin:
  "auth demoEnv demoState (Some aliceToken) = Next aliceReq \<and>
   ruRole aliceReq = ''admin'' \<and>
   map_option role (findById demoState 4) = Some ''user'' \<and>
   code (fst (PUT_promote demoEnv demoState (Some aliceToken) 4 promoteToSuperadmin)) = 200 \<and>
   map_option role
     (findById (snd (PUT_promote demoEnv demoState (Some aliceToken) 4 promoteToSuperadmin)) 4) =
     Some ''superadmin'' \<and>
   map_option permissions
     (findById (snd (PUT_promote demoEnv demoState (Some aliceToken) 4 promoteToSuperadmin)) 4) =
     Some (rolePermissions ''superadmin'') \<and>
   PUT_user demoEnv demoState (Some aliceToken) 4 updateToSuperadmin =
     (\<lparr>code = 403,
       body = JObj [(''message'', JStr ''Only superadmins can promote to superadmin'')]\<rparr>,
      demoState)"
  by (simp add: model demo Let_def)

text \<open>
  The entry that the promote route pushes has a status outside the schema's enum, so
  every later save of the promoted account fails validation: Bob, once promoted, can no
  longer log in.
\<close>

lemma promoted_account_fails_to_save:
  "code (fst (promoteUser demoEnv demoState rootReq 4 promoteToAdmin)) = 200 \<and>
   map_option (map entryStatus o statusHistory)
     (findById (snd (promoteUser demoEnv demoState rootReq 4 promoteToAdmin)) 4) =
     Some [''Role changed to admin''] \<and>
   code (fst (login demoEnv (snd (promoteUser demoEnv demoState rootReq 4 promoteToAdmin))
               bobLogin)) = 500"
  by (simp add: model demo Let_def)

subsection \<open>The status history\<close>

text \<open>
  An update that answers 200 and changes the status puts two entries in front of the
  history: the handler's, and above it the one of the save hook.
\<close>

lemma updateUser_status_change_entries:
  assumes "findById s i = Some u" "code (fst (updateUser ev s ru i b)) = 200"
    and "truthy (ubStatus b)" "the (ubStatus b) \<noteq> status u"
  shows "\<exists>u'. findById (snd (updateUser ev s ru i b)) i = Some u' \<and>
              status u' = the (ubStatus b) \<and>
              statusHistory u' =
                \<lparr>entryStatus = the (ubStatus b), reason = None, timestamp = now ev,
                 updatedBy = None\<rparr> #
                \<lparr>entryStatus = the (ubStatus b), reason = ubReason b, timestamp = now ev,
                 updatedBy = None\<rparr> # statusHistory u"
proof -
  from updateUser_target [OF assms(1), of ev ru b] assms(2) obtain d2
    where d2: "roleStep (applyUpdate ev ru b (loaded u)) = Inr d2"
      "findById (snd (updateUser ev s ru i b)) i = Some (data (statusStep ev d2))"
    by blast
  have "PathStatus \<in> modified d2"
    using roleStep_frame(9) [OF d2(1)] assms(3,4) by (simp add: applyUpdate_status(2))
  then show ?thesis
    using d2(2) assms(3)
    by (simp add: statusStep_frame statusStep_history roleStep_frame(3,5) [OF d2(1)]
        applyUpdate_status(1,3))
qed

text \<open>
  Claim C3 at a concrete request. Alice suspends Bob, whose status is active and whose
  history is empty: the update answers 200, the status is suspended, and the history
  holds two entries for the one change.
\<close>

theorem status_change_adds_two_entries:
  "map_option status (findById demoState 4) = Some ''active'' \<and>
   map_option statusHistory (findById demoState 4) = Some [] \<and>
   code (fst (updateUser demoEnv demoState aliceReq 4 suspend)) = 200 \<and>
   map_option status (findById (snd (updateUser demoEnv demoState aliceReq 4 suspend)) 4) =
     Some ''suspended'' \<and>
   map_option statusHistory
     (findById (snd (updateUser demoEnv demoState aliceReq 4 suspend)) 4) =
     Some [\<lparr>entryStatus = ''suspended'', reason = None, timestamp = 7200000,
            updatedBy = None\<rparr>,
           \<lparr>entryStatus = ''suspended'', reason = Some ''spam'', timestamp = 7200000,
            updatedBy = None\<rparr>]"
  by (simp add: model demo Let_def)

subsection \<open>Permissions and roles\<close>

lemma set_storeUser: "set (storeUser u us) \<subseteq> insert u (set us)"
  by (auto simp: storeUser_def)

lemma findById_member: "findById s i = Some u \<Longrightarrow> u \<in> set (users s)"
  by (auto simp: findById_def find_Some_iff)

lemma derived_after_store:
  assumes "permissionsDerived s" "permissions u = rolePermissions (role u)"
    and "users s' = storeUser u (users s)"
  shows "permissionsDerived s'"
  using assms set_storeUser [of u "users s"] by (auto simp: permissionsDerived_def)

lemma derived_pushHistory:
  assumes "permissionsDerived s"
  shows "permissionsDerived (pushHistory j e s)"
proof -
  have "permissions v = rolePermissions (role v)"
    if "v \<in> set (users (pushHistory j e s))" for v
  proof -
    from that obtain w where w: "w \<in> set (users s)"
      "v = (if uid w = j then w\<lparr>statusHistory := statusHistory w @ [e]\<rparr> else w)"
      by (auto simp: pushHistory_def)
    from assms w(1) have "permissions w = rolePermissions (role w)"
      by (simp add: permissionsDerived_def)
    with w(2) show ?thesis by simp
  qed
  then show ?thesis by (simp add: permissionsDerived_def)
qed

lemma find_map_history:
  "find (\<lambda>x. uid x = i)
     (map (\<lambda>v. if uid v = j then v\<lparr>statusHistory := statusHistory v @ [e]\<rparr> else v) us) =
   map_option (\<lambda>v. if uid v = j then v\<lparr>statusHistory := statusHistory v @ [e]\<rparr> else v)
     (find (\<lambda>x. uid x = i) us)"
  by (induction us) auto

lemma findById_pushHistory:
  "findById (pushHistory j e s) i =
     map_option (\<lambda>v. if uid v = j then v\<lparr>statusHistory := statusHistory v @ [e]\<rparr> else v)
       (findById s i)"
  by (simp add: findById_def pushHistory_def find_map_history)

text \<open>
  The save hook on a loaded document whose password is untouched: the permissions are
  those of the role when the role was modified, and the old ones otherwise.
\<close>

lemma hook_permissions:
  assumes "preSave ev d = Inr dd" "\<not> skipMiddleware d" "PathPassword \<notin> modified d" "\<not> isNew d"
  shows "role (data dd) = role (data d)" "uid (data dd) = uid (data d)"
    and "permissions (data dd) =
           (if PathRole \<in> modified d then rolePermissions (role (data d))
            else permissions (data d))"
proof -
  from assms(1-3) obtain d2 where d2: "roleStep d = Inr d2" "dd = statusStep ev d2"
    by (auto simp: preSave_plain split: sum.splits)
  show "role (data dd) = role (data d)" "uid (data dd) = uid (data d)"
    by (simp_all add: d2(2) statusStep_frame roleStep_frame(1,2) [OF d2(1)])
  show "permissions (data dd) =
           (if PathRole \<in> modified d then rolePermissions (role (data d))
            else permissions (data d))"
    using assms(4) by (simp add: d2(2) statusStep_frame roleStep_permissions [OF d2(1)])
qed

lemma setRole_tracking:
  "\<not> skipMiddleware (setRole r (loaded u))" "PathPassword \<notin> modified (setRole r (loaded u))"
  "\<not> isNew (setRole r (loaded u))" "role (data (setRole r (loaded u))) = r"
  "uid (data (setRole r (loaded u))) = uid u"
  "permissions (data (setRole r (loaded u))) = permissions u"
  "(PathRole \<in> modified (setRole r (loaded u))) = (r \<noteq> role u)"
  by (auto simp: setters)

lemma setLastLogin_tracking:
  "\<not> skipMiddleware (setLastLogin t (loaded u))"
  "PathPassword \<notin> modified (setLastLogin t (loaded u))"
  "\<not> isNew (setLastLogin t (loaded u))" "role (data (setLastLogin t (loaded u))) = role u"
  "permissions (data (setLastLogin t (loaded u))) = permissions u"
  "PathRole \<notin> modified (setLastLogin t (loaded u))"
  by (auto simp: setters)

lemma setPermissions_tracking:
  "\<not> skipMiddleware (setPermissions p (loaded u))"
  "PathPassword \<notin> modified (setPermissions p (loaded u))"
  "\<not> isNew (setPermissions p (loaded u))" "role (data (setPermissions p (loaded u))) = role u"
  "permissions (data (setPermissions p (loaded u))) = p"
  "PathRole \<notin> modified (setPermissions p (loaded u))"
  "PathStatus \<notin> modified (setPermissions p (loaded u))"
  "data (setPermissions p (loaded u)) = u\<lparr>permissions := p\<rparr>"
  by (auto simp: setters)

lemma findOneByEmail_member: "findOneByEmail s e = Some u \<Longrightarrow> u \<in> set (users s)"
  by (auto simp: findOneByEmail_def find_Some_iff)

lemma login_cases:
  "users (snd (login ev s b)) = users s \<or>
   (\<exists>u dd. findOneByEmail s (toLowerCase (the (lbEmail b))) = Some u \<and>
           preSave ev (setLastLogin (now ev) (loaded u)) = Inr dd \<and>
           users (snd (login ev s b)) = storeUser (data dd) (users s))"
proof (cases "findOneByEmail s (toLowerCase (the (lbEmail b)))")
  case None
  then show ?thesis by (simp add: login_def)
next
  case (Some u)
  show ?thesis
  proof (cases "save ev (setLastLogin (now ev) (loaded u)) s")
    case (Inl err)
    with Some show ?thesis
      by (simp add: login_def SystemLog_create_def)
  next
    case (Inr r)
    obtain d' s1 where r: "r = (d', s1)" by (cases r)
    from Inr r have sv: "save ev (setLastLogin (now ev) (loaded u)) s = Inr (d', s1)" by simp
    from save_Inr [OF sv] obtain dd
      where dd: "preSave ev (setLastLogin (now ev) (loaded u)) = Inr dd"
        "s1 = s\<lparr>users := storeUser (data dd) (users s)\<rparr>"
      by blast
    show ?thesis
      using Some sv dd by (auto simp: login_def SystemLog_create_def)
  qed
qed

lemma login_derived:
  assumes "permissionsDerived s"
  shows "permissionsDerived (snd (login ev s b))"
proof -
  from login_cases [of ev s b] show ?thesis
  proof
    assume "users (snd (login ev s b)) = users s"
    with assms show ?thesis by (simp add: permissionsDerived_def)
  next
    assume "\<exists>u dd. findOneByEmail s (toLowerCase (the (lbEmail b))) = Some u \<and>
              preSave ev (setLastLogin (now ev) (loaded u)) = Inr dd \<and>
              users (snd (login ev s b)) = storeUser (data dd) (users s)"
    then obtain u dd where u: "findOneByEmail s (toLowerCase (the (lbEmail b))) = Some u"
      and dd: "preSave ev (setLastLogin (now ev) (loaded u)) = Inr dd"
      and st: "users (snd (login ev s b)) = storeUser (data dd) (users s)"
      by blast
    from assms findOneByEmail_member [OF u] have "permissions u = rolePermissions (role u)"
      by (simp add: permissionsDerived_def)
    with hook_permissions [OF dd setLastLogin_tracking(1,2,3)]
    have "permissions (data dd) = rolePermissions (role (data dd))"
      by (simp add: setLastLogin_tracking)
    from derived_after_store [OF assms this st] show ?thesis .
  qed
qed

lemma updateUser_derived:
  assumes "permissionsDerived s"
  shows "permissionsDerived (snd (updateUser ev s ru i b))"
proof (cases "findById s i")
  case None
  with assms show ?thesis by (simp add: updateUser_def)
next
  case (Some u)
  from updateUser_cases [OF Some, of ev ru b] show ?thesis
  proof
    assume "snd (updateUser ev s ru i b) = s \<and> code (fst (updateUser ev s ru i b)) \<noteq> 200"
    with assms show ?thesis by simp
  next
    assume "\<exists>dd s1. preSave ev (applyUpdate ev ru b (loaded u)) = Inr dd \<and>
              save ev (applyUpdate ev ru b (loaded u)) s =
                Inr (dd\<lparr>isNew := False, modified := {}\<rparr>, s1) \<and>
              users (snd (updateUser ev s ru i b)) = storeUser (data dd) (users s) \<and>
              \<not> (role u = ''superadmin'' \<and> ruRole ru \<noteq> ''superadmin'') \<and>
              \<not> (ubRole b = Some ''superadmin'' \<and> ruRole ru \<noteq> ''superadmin'')"
    then obtain dd where dd: "preSave ev (applyUpdate ev ru b (loaded u)) = Inr dd"
      and st: "users (snd (updateUser ev s ru i b)) = storeUser (data dd) (users s)"
      by blast
    from assms findById_member [OF Some] have "permissions u = rolePermissions (role u)"
      by (simp add: permissionsDerived_def)
    with hook_permissions [OF dd applyUpdate_tracking(2,4,3)]
    have "permissions (data dd) = rolePermissions (role (data dd))"
      by (auto simp: applyUpdate_tracking(5) applyUpdate_role)
    from derived_after_store [OF assms this st] show ?thesis .
  qed
qed

lemma updateUser_rederives:
  assumes "findById s i = Some u" "findById (snd (updateUser ev s ru i b)) i = Some u'"
    and "role u' \<noteq> role u"
  shows "permissions u' = rolePermissions (role u')"
proof -
  let ?d = "applyUpdate ev ru b (loaded u)"
  have "snd (updateUser ev s ru i b) \<noteq> s"
    using assms by auto
  from updateUser_target [OF assms(1), of ev ru b] this obtain d2
    where d2: "roleStep ?d = Inr d2"
      "findById (snd (updateUser ev s ru i b)) i = Some (data (statusStep ev d2))"
    by blast
  from d2(2) assms(2) have eq: "u' = data (statusStep ev d2)" by simp
  have r: "role u' = role (data ?d)"
    by (simp add: eq statusStep_frame roleStep_frame(2) [OF d2(1)])
  have m: "PathRole \<in> modified ?d"
  proof (rule ccontr)
    assume "PathRole \<notin> modified ?d"
    then have "role (data ?d) = role u"
      by (simp add: applyUpdate_role)
    with r assms(3) show False by simp
  qed
  have p: "permissions u' = permissions (data d2)"
    by (simp add: eq statusStep_frame)
  have "permissions (data d2) = rolePermissions (role (data ?d))"
    using roleStep_permissions [OF d2(1)] m by simp
  with p r show ?thesis by simp
qed

lemma promoteUser_cases:
  assumes "findById s i = Some u"
  shows "snd (promoteUser ev s ru i b) = s \<or>
         (\<exists>r dd e. preSave ev (setRole r (loaded u)) = Inr dd \<and>
                   snd (promoteUser ev s ru i b) =
                     pushHistory (uid (data dd)) e
                       (s\<lparr>users := storeUser (data dd) (users s)\<rparr>))"
proof (cases "pbRole b \<notin> set [Some ''admin'', Some ''superadmin'']")
  case True
  with assms show ?thesis by (simp add: promoteUser_def)
next
  case False
  show ?thesis
  proof (cases "save ev (setRole (the (pbRole b)) (loaded u)) s")
    case (Inl err)
    with assms False show ?thesis by (simp add: promoteUser_def)
  next
    case (Inr r)
    obtain d' s1 where r: "r = (d', s1)" by (cases r)
    from Inr r have sv: "save ev (setRole (the (pbRole b)) (loaded u)) s = Inr (d', s1)"
      by simp
    from save_Inr [OF sv] obtain dd
      where dd: "preSave ev (setRole (the (pbRole b)) (loaded u)) = Inr dd"
        "data d' = data dd" "s1 = s\<lparr>users := storeUser (data dd) (users s)\<rparr>"
      by blast
    have "snd (promoteUser ev s ru i b) =
            pushHistory (uid (data dd))
              \<lparr>entryStatus = ''Role changed to '' @ the (pbRole b),
               reason = Some (if truthy (pbReason b) then the (pbReason b)
                              else ''Promoted to '' @ the (pbRole b)),
               timestamp = now ev, updatedBy = reqUser_id ru\<rparr>
              (s\<lparr>users := storeUser (data dd) (users s)\<rparr>)"
      using assms False sv dd(2,3) by (simp add: promoteUser_def Let_def)
    with dd(1) show ?thesis by blast
  qed
qed

lemma promoteUser_derived:
  assumes "permissionsDerived s"
  shows "permissionsDerived (snd (promoteUser ev s ru i b))"
proof (cases "findById s i")
  case None
  with assms show ?thesis by (simp add: promoteUser_def)
next
  case (Some u)
  from promoteUser_cases [OF Some, of ev ru b] show ?thesis
  proof
    assume "snd (promoteUser ev s ru i b) = s"
    with assms show ?thesis by simp
  next
    assume "\<exists>r dd e. preSave ev (setRole r (loaded u)) = Inr dd \<and>
              snd (promoteUser ev s ru i b) =
                pushHistory (uid (data dd)) e (s\<lparr>users := storeUser (data dd) (users s)\<rparr>)"
    then obtain r dd e where dd: "preSave ev (setRole r (loaded u)) = Inr dd"
      and st: "snd (promoteUser ev s ru i b) =
                 pushHistory (uid (data dd)) e (s\<lparr>users := storeUser (data dd) (users s)\<rparr>)"
      by blast
    from assms findById_member [OF Some] have "permissions u = rolePermissions (role u)"
      by (simp add: permissionsDerived_def)
    with hook_permissions [OF dd setRole_tracking(1,2,3)]
    have "permissions (data dd) = rolePermissions (role (data dd))"
      by (auto simp: setRole_tracking)
    from derived_after_store [OF assms this, of "s\<lparr>users := storeUser (data dd) (users s)\<rparr>"]
    have "permissionsDerived (s\<lparr>users := storeUser (data dd) (users s)\<rparr>)" by simp
    from derived_pushHistory [OF this] st show ?thesis by simp
  qed
qed

lemma promoteUser_rederives:
  assumes "findById s i = Some u" "findById (snd (promoteUser ev s ru i b)) i = Some u'"
    and "role u' \<noteq> role u"
  shows "permissions u' = rolePermissions (role u')"
proof -
  have "snd (promoteUser ev s ru i b) \<noteq> s"
    using assms by auto
  with promoteUser_cases [OF assms(1), of ev ru b] obtain r dd e
    where dd: "preSave ev (setRole r (loaded u)) = Inr dd"
      and st: "snd (promoteUser ev s ru i b) =
                 pushHistory (uid (data dd)) e (s\<lparr>users := storeUser (data dd) (users s)\<rparr>)"
    by blast
  note h = hook_permissions [OF dd setRole_tracking(1,2,3)]
  have id: "uid (data dd) = i"
    using h(2) findById_uid [OF assms(1)] by (simp add: setRole_tracking)
  have "findById (s\<lparr>users := storeUser (data dd) (users s)\<rparr>) i = Some (data dd)"
    by (simp add: findById_def find_storeUser id)
  then have "findById (snd (promoteUser ev s ru i b)) i =
          Some ((data dd)\<lparr>statusHistory := statusHistory (data dd) @ [e]\<rparr>)"
    by (simp add: st findById_pushHistory id)
  with assms(2) have eq: "u' = (data dd)\<lparr>statusHistory := statusHistory (data dd) @ [e]\<rparr>"
    by simp
  have r: "role u' = r" by (simp add: eq h(1) setRole_tracking)
  with assms(3) have "r \<noteq> role u" by simp
  then have "permissions (data dd) = rolePermissions r"
    using h(3) by (simp add: setRole_tracking)
  with r show ?thesis by (simp add: eq)
qed

lemma updatePermissions_sets:
  assumes "findById s i = Some u" "code (fst (updatePermissions ev s ru i patch)) = 200"
  shows "snd (updatePermissions ev s ru i patch) =
           s\<lparr>users := storeUser (u\<lparr>permissions := fold permissionPut patch (permissions u)\<rparr>)
                          (users s)\<rparr>"
proof -
  let ?d = "setPermissions (fold permissionPut patch (permissions u)) (loaded u)"
  from assms obtain d' s1 where sv: "save ev ?d s = Inr (d', s1)"
    by (auto simp: updatePermissions_def respond_def split: sum.splits)
  have "roleStep ?d = Inr ?d"
    by (simp add: roleStep_def isModified_def setPermissions_tracking)
  moreover have "statusStep ev ?d = ?d"
    by (simp add: statusStep_def isModified_def setPermissions_tracking)
  ultimately have "preSave ev ?d = Inr ?d"
    by (simp add: preSave_plain setPermissions_tracking)
  with save_Inr [OF sv] have "s1 = s\<lparr>users := storeUser (data ?d) (users s)\<rparr>"
    by simp
  then show ?thesis
    using assms(1) sv by (simp add: updatePermissions_def setPermissions_tracking(8))
qed

lemma distinct_find:
  "distinct (map uid us) \<Longrightarrow> u \<in> set us \<Longrightarrow> find (\<lambda>x. uid x = uid u) us = Some u"
  by (induction us) (auto simp: image_iff)

lemma storeUser_ids:
  "map uid (storeUser u us) =
     (if \<exists>v \<in> set us. uid v = uid u then map uid us else map uid us @ [uid u])"
  by (induction us) (auto simp: storeUser_def)

lemma save_ids_distinct:
  assumes "save ev d s = Inr (d', s')" "distinct (map uid (users s))"
  shows "distinct (map uid (users s'))"
proof -
  obtain u where "users s' = storeUser u (users s)"
    using assms(1) unfolding save_def
    by (auto split: option.splits if_splits sum.splits)
  with assms(2) show ?thesis by (auto simp: storeUser_ids)
qed

text \<open>An account by account view of the admin update, the promotion and login.\<close>

lemma updateUser_account:
  assumes "findById s j = Some u" "findById (snd (updateUser ev s ru i b)) j = Some u'"
  shows "permissions u' = (if role u' = role u then permissions u else rolePermissions (role u'))"
proof (cases "snd (updateUser ev s ru i b) = s")
  case True
  with assms show ?thesis by simp
next
  case False
  then obtain ui where ui: "findById s i = Some ui"
    by (cases "findById s i") (auto simp: updateUser_def)
  let ?d = "applyUpdate ev ru b (loaded ui)"
  from updateUser_cases [OF ui, of ev ru b] False obtain dd
    where dd: "preSave ev ?d = Inr dd"
      and st: "users (snd (updateUser ev s ru i b)) = storeUser (data dd) (users s)"
    by blast
  note h = hook_permissions [OF dd applyUpdate_tracking(2,4,3)]
  have id: "uid (data dd) = i"
    using h(2) findById_uid [OF ui] by (simp add: applyUpdate_tracking)
  have look: "findById (snd (updateUser ev s ru i b)) j =
                (if j = i then Some (data dd) else findById s j)"
    by (simp add: findById_def st find_storeUser id)
  show ?thesis
  proof (cases "j = i")
    case True
    with assms ui look have u: "u = ui" "u' = data dd" by simp_all
    show ?thesis
      using h(1,3) by (auto simp: u applyUpdate_tracking(5) applyUpdate_role)
  next
    case False
    with assms look show ?thesis by simp
  qed
qed

lemma promoteUser_account:
  assumes "findById s j = Some u" "findById (snd (promoteUser ev s ru i b)) j = Some u'"
  shows "permissions u' = (if role u' = role u then permissions u else rolePermissions (role u'))"
proof (cases "snd (promoteUser ev s ru i b) = s")
  case True
  with assms show ?thesis by simp
next
  case False
  then obtain ui where ui: "findById s i = Some ui"
    by (cases "findById s i") (auto simp: promoteUser_def)
  from promoteUser_cases [OF ui, of ev ru b] False obtain r dd e
    where dd: "preSave ev (setRole r (loaded ui)) = Inr dd"
      and st: "snd (promoteUser ev s ru i b) =
                 pushHistory (uid (data dd)) e (s\<lparr>users := storeUser (data dd) (users s)\<rparr>)"
    by blast
  note h = hook_permissions [OF dd setRole_tracking(1,2,3)]
  have id: "uid (data dd) = i"
    using h(2) findById_uid [OF ui] by (simp add: setRole_tracking)
  have mid: "findById (s\<lparr>users := storeUser (data dd) (users s)\<rparr>) j =
               (if j = i then Some (data dd) else findById s j)"
    by (simp add: findById_def find_storeUser id)
  show ?thesis
  proof (cases "j = i")
    case True
    with assms(1) ui have u: "u = ui" by simp
    from assms(2) True mid have "u' = (data dd)\<lparr>statusHistory := statusHistory (data dd) @ [e]\<rparr>"
      by (simp add: st findById_pushHistory id)
    then show ?thesis
      using h(1,3) by (auto simp: u setRole_tracking)
  next
    case False
    with assms mid show ?thesis
      by (auto simp: st findById_pushHistory id split: if_splits)
  qed
qed

lemma login_account:
  assumes "distinct (map uid (users s))"
    and "findById s j = Some u" "findById (snd (login ev s b)) j = Some u'"
  shows "role u' = role u \<and> permissions u' = permissions u"
proof -
  from login_cases [of ev s b] show ?thesis
  proof
    assume "users (snd (login ev s b)) = users s"
    with assms(2,3) show ?thesis by (simp add: findById_def)
  next
    assume "\<exists>v dd. findOneByEmail s (toLowerCase (the (lbEmail b))) = Some v \<and>
              preSave ev (setLastLogin (now ev) (loaded v)) = Inr dd \<and>
              users (snd (login ev s b)) = storeUser (data dd) (users s)"
    then obtain v dd where v: "findOneByEmail s (toLowerCase (the (lbEmail b))) = Some v"
      and dd: "preSave ev (setLastLogin (now ev) (loaded v)) = Inr dd"
      and st: "users (snd (login ev s b)) = storeUser (data dd) (users s)"
      by blast
    note h = hook_permissions [OF dd setLastLogin_tracking(1,2,3)]
    have id: "uid (data dd) = uid v"
      using h(2) by (simp add: setters)
    have look: "findById (snd (login ev s b)) j =
                  (if j = uid v then Some (data dd) else findById s j)"
      by (simp add: findById_def st find_storeUser id)
    show ?thesis
    proof (cases "j = uid v")
      case True
      from distinct_find [OF assms(1) findOneByEmail_member [OF v]] True assms(2)
      have "u = v" by (simp add: findById_def)
      moreover from True look assms(3) have "u' = data dd" by simp
      ultimately show ?thesis
        using h(1,3) by (simp add: setLastLogin_tracking)
    next
      case False
      with look assms(2,3) show ?thesis by simp
    qed
  qed
qed

text \<open>
  The ids stay distinct through every handler that writes the store, as the ids of a
  collection are: registration, login, the admin update and the promotion first, the
  permission update, the password reset and the deletion after them.
\<close>

lemma register_users:
  "users (snd (register ev s b)) = users s \<or>
   users (snd (register ev s b)) = users s @ [data (newUserDoc ev s b)]"
proof (cases "code (fst (register ev s b)) = 201")
  case True
  then show ?thesis by (simp add: register_created)
next
  case False
  then have "snd (register ev s b) = s"
    by (auto simp: register_def respond_def Let_def
        split: if_splits option.splits sum.splits saveError.splits)
  then show ?thesis by simp
qed

lemma distinct_after_store:
  assumes "distinct (map uid us)"
    and "ids = map uid us \<or> (\<exists>u. ids = map uid (storeUser u us))"
  shows "distinct ids"
  using assms(2)
proof
  assume "ids = map uid us"
  with assms(1) show ?thesis by simp
next
  assume "\<exists>u. ids = map uid (storeUser u us)"
  then obtain u where "ids = map uid (storeUser u us)" ..
  with assms(1) show ?thesis by (auto simp: storeUser_ids)
qed

lemma ids_stay_distinct:
  assumes "distinct (map uid (users s))"
  shows "distinct (map uid (users (snd (register ev s rb))))"
    and "distinct (map uid (users (snd (login ev s lb))))"
    and "distinct (map uid (users (snd (updateUser ev s ru i ub))))"
    and "distinct (map uid (users (snd (promoteUser ev s ru i pb))))"
proof -
  have "uid (data (newUserDoc ev s rb)) = freshId (users s)"
    by (simp add: newUserDoc_def Let_def)
  with freshId_fresh [of _ "users s"]
  have "uid (data (newUserDoc ev s rb)) \<notin> uid ` set (users s)"
    by force
  with register_users [of ev s rb] assms
  show "distinct (map uid (users (snd (register ev s rb))))"
    by auto
  have "map uid (users (snd (login ev s lb))) = map uid (users s) \<or>
        (\<exists>u. map uid (users (snd (login ev s lb))) = map uid (storeUser u (users s)))"
    using login_cases [of ev s lb] by auto
  with assms show "distinct (map uid (users (snd (login ev s lb))))"
    by (rule distinct_after_store)
  have "map uid (users (snd (updateUser ev s ru i ub))) = map uid (users s) \<or>
        (\<exists>u. map uid (users (snd (updateUser ev s ru i ub))) = map uid (storeUser u (users s)))"
  proof (cases "findById s i")
    case None
    then show ?thesis by (simp add: updateUser_def)
  next
    case (Some ui)
    from updateUser_cases [OF Some, of ev ru ub] show ?thesis by auto
  qed
  with assms show "distinct (map uid (users (snd (updateUser ev s ru i ub))))"
    by (rule distinct_after_store)
  have push: "map uid (users (pushHistory k e t)) = map uid (users t)" for k e t
    by (simp add: pushHistory_def comp_def)
  have "map uid (users (snd (promoteUser ev s ru i pb))) = map uid (users s) \<or>
        (\<exists>u. map uid (users (snd (promoteUser ev s ru i pb))) = map uid (storeUser u (users s)))"
  proof (cases "findById s i")
    case None
    then show ?thesis by (simp add: promoteUser_def)
  next
    case (Some ui)
    from promoteUser_cases [OF Some, of ev ru pb] show ?thesis
      by (auto simp: push)
  qed
  with assms show "distinct (map uid (users (snd (promoteUser ev s ru i pb))))"
    by (rule distinct_after_store)
qed

lemma ids_stay_distinct_elsewhere:
  assumes "distinct (map uid (users s))"
  shows "distinct (map uid (users (snd (updatePermissions ev s ru i patch))))"
    and "distinct (map uid (users (snd (resetVendorPassword ev s em))))"
    and "distinct (map uid (users (snd (deleteUser ev s ru i))))"
proof -
  have "users (snd (updatePermissions ev s ru i patch)) = users s \<or>
        (\<exists>d d' s1. save ev d s = Inr (d', s1) \<and>
                    users (snd (updatePermissions ev s ru i patch)) = users s1)"
    by (auto simp: updatePermissions_def split: option.splits sum.splits)
  with assms save_ids_distinct
  show "distinct (map uid (users (snd (updatePermissions ev s ru i patch))))"
    by (metis (no_types))
  have "users (snd (resetVendorPassword ev s em)) = users s \<or>
        (\<exists>d d' s1. save ev d s = Inr (d', s1) \<and>
                    users (snd (resetVendorPassword ev s em)) = users s1)"
    by (auto simp: resetVendorPassword_def SystemLog_create_def
        split: option.splits sum.splits)
  with assms save_ids_distinct
  show "distinct (map uid (users (snd (resetVendorPassword ev s em))))"
    by (metis (no_types))
  have "users (snd (deleteUser ev s ru i)) = users s \<or>
        users (snd (deleteUser ev s ru i)) = filter (\<lambda>v. uid v \<noteq> i) (users s)"
    by (simp add: deleteUser_def SystemLog_create_def split: option.splits)
  with assms show "distinct (map uid (users (snd (deleteUser ev s ru i))))"
    by (auto simp: distinct_map_filter)
qed

text \<open>
  Claim C1, as the code has it. The permission rows by role are those of the table.
  The admin update and the promotion leave the permission set of every account whose
  role they do not change as it was, and store the row of the new role for an account
  whose role they change; login changes neither role nor permission set of any account
  (in a store with distinct ids). So an account that holds the row of its role before
  one of these operations holds the row of its role after it: the derivation runs in
  the save hook, when the role is modified. The permission update, a route open to
  every admin and superadmin, overwrites the booleans the request names with the
  request's values and keeps the others, whatever the role, and writes no log entry.
  (What registration stores is not part of this statement.)
\<close>

theorem permissions_follow_role_until_overridden:
  "rolePermissions ''user'' =
     \<lparr>manageUsers = False, manageProducts = False, manageOrders = False,
      manageSettings = False, promoteUsers = False, viewAnalytics = False,
      managePermissions = False\<rparr> \<and>
   rolePermissions ''vendor'' =
     \<lparr>manageUsers = False, manageProducts = True, manageOrders = True,
      manageSettings = False, promoteUsers = False, viewAnalytics = True,
      managePermissions = False\<rparr> \<and>
   rolePermissions ''admin'' =
     \<lparr>manageUsers = True, manageProducts = True, manageOrders = True,
      manageSettings = True, promoteUsers = False, viewAnalytics = True,
      managePermissions = False\<rparr> \<and>
   rolePermissions ''superadmin'' =
     \<lparr>manageUsers = True, manageProducts = True, manageOrders = True,
      manageSettings = True, promoteUsers = True, viewAnalytics = True,
      managePermissions = True\<rparr> \<and>
   (findById s j = Some u \<and> findById (snd (updateUser ev s ru i ub)) j = Some u' \<longrightarrow>
      permissions u' =
        (if role u' = role u then permissions u else rolePermissions (role u')) \<and>
      (permissions u = rolePermissions (role u) \<longrightarrow>
         permissions u' = rolePermissions (role u'))) \<and>
   (findById s j = Some u \<and> findById (snd (promoteUser ev s ru i pb)) j = Some u' \<longrightarrow>
      permissions u' =
        (if role u' = role u then permissions u else rolePermissions (role u')) \<and>
      (permissions u = rolePermissions (role u) \<longrightarrow>
         permissions u' = rolePermissions (role u'))) \<and>
   (distinct (map uid (users s)) \<and> findById s j = Some u \<and>
    findById (snd (login ev s lb)) j = Some u' \<longrightarrow>
      role u' = role u \<and> permissions u' = permissions u \<and>
      (permissions u = rolePermissions (role u) \<longrightarrow>
         permissions u' = rolePermissions (role u'))) \<and>
   (findById s i = Some u \<and> code (fst (updatePermissions ev s ru i patch)) = 200 \<longrightarrow>
      findById (snd (updatePermissions ev s ru i patch)) i =
        Some (u\<lparr>permissions := fold permissionPut patch (permissions u)\<rparr>) \<and>
      logs (snd (updatePermissions ev s ru i patch)) = logs s)"
proof -
  have table: "rolePermissions ''user'' =
     \<lparr>manageUsers = False, manageProducts = False, manageOrders = False,
      manageSettings = False, promoteUsers = False, viewAnalytics = False,
      managePermissions = False\<rparr>"
    "rolePermissions ''vendor'' =
     \<lparr>manageUsers = False, manageProducts = True, manageOrders = True,
      manageSettings = False, promoteUsers = False, viewAnalytics = True,
      managePermissions = False\<rparr>"
    "rolePermissions ''admin'' =
     \<lparr>manageUsers = True, manageProducts = True, manageOrders = True,
      manageSettings = True, promoteUsers = False, viewAnalytics = True,
      managePermissions = False\<rparr>"
    "rolePermissions ''superadmin'' =
     \<lparr>manageUsers = True, manageProducts = True, manageOrders = True,
      manageSettings = True, promoteUsers = True, viewAnalytics = True,
      managePermissions = True\<rparr>"
    by (simp_all add: rolePermissions_def noPermissions_def)
  have upd: "permissions u' =
        (if role u' = role u then permissions u else rolePermissions (role u')) \<and>
      (permissions u = rolePermissions (role u) \<longrightarrow>
         permissions u' = rolePermissions (role u'))"
    if "findById s j = Some u" "findById (snd (updateUser ev s ru i ub)) j = Some u'"
    using updateUser_account [OF that] by simp
  have pro: "permissions u' =
        (if role u' = role u then permissions u else rolePermissions (role u')) \<and>
      (permissions u = rolePermissions (role u) \<longrightarrow>
         permissions u' = rolePermissions (role u'))"
    if "findById s j = Some u" "findById (snd (promoteUser ev s ru i pb)) j = Some u'"
    using promoteUser_account [OF that] by simp
  have log: "role u' = role u \<and> permissions u' = permissions u \<and>
      (permissions u = rolePermissions (role u) \<longrightarrow>
         permissions u' = rolePermissions (role u'))"
    if "distinct (map uid (users s))" "findById s j = Some u"
      "findById (snd (login ev s lb)) j = Some u'"
    using login_account [OF that] by simp
  have patched: "findById (snd (updatePermissions ev s ru i patch)) i =
        Some (u\<lparr>permissions := fold permissionPut patch (permissions u)\<rparr>) \<and>
      logs (snd (updatePermissions ev s ru i patch)) = logs s"
    if "findById s i = Some u" "code (fst (updatePermissions ev s ru i patch)) = 200"
    using findById_uid [OF that(1)]
    by (simp add: updatePermissions_sets [OF that] findById_def find_storeUser)
  from table upd pro log patched show ?thesis by blast
qed

theorem permissions_follow_role_witness:
  "distinct (map uid (users demoState)) \<and>
   findById demoState 4 = Some bob \<and> permissions bob = rolePermissions (role bob) \<and>
   map_option (\<lambda>v. permissions v = rolePermissions (role v))
     (findById (snd (updateUser demoEnv demoState aliceReq 4 suspend)) 4) = Some True \<and>
   map_option role (findById (snd (promoteUser demoEnv demoState rootReq 4 promoteToAdmin)) 4) =
     Some ''admin'' \<and>
   map_option permissions
     (findById (snd (promoteUser demoEnv demoState rootReq 4 promoteToAdmin)) 4) =
     Some (rolePermissions ''admin'') \<and>
   code (fst (login demoEnv demoState bobLogin)) = 200 \<and>
   map_option permissions (findById (snd (login demoEnv demoState bobLogin)) 4) =
     Some (rolePermissions ''user'') \<and>
   code (fst (updatePermissions demoEnv demoState aliceReq 4 grant)) = 200 \<and>
   findById (snd (updatePermissions demoEnv demoState aliceReq 4 grant)) 4 =
     Some (bob\<lparr>permissions := noPermissions\<lparr>manageUsers := True, managePermissions := True\<rparr>\<rparr>)"
proof -
  have d: "distinct (map uid (users demoState))"
    by (simp add: demo)
  have f: "findById demoState 4 = Some bob"
    by (simp add: model demo)
  have b: "permissions bob = rolePermissions (role bob)" "role bob = ''user''"
    by (simp_all add: bob_def rolePermissions_def)
  have "map_option role (findById (snd (updateUser demoEnv demoState aliceReq 4 suspend)) 4) =
          Some ''user''"
    by (simp add: model demo Let_def)
  then obtain v1
    where v1: "findById (snd (updateUser demoEnv demoState aliceReq 4 suspend)) 4 = Some v1"
    by auto
  have r: "map_option role
             (findById (snd (promoteUser demoEnv demoState rootReq 4 promoteToAdmin)) 4) =
           Some ''admin''"
    by (simp add: model demo Let_def)
  then obtain v2
    where v2: "findById (snd (promoteUser demoEnv demoState rootReq 4 promoteToAdmin)) 4 = Some v2"
      "role v2 = ''admin''"
    by auto
  have l: "code (fst (login demoEnv demoState bobLogin)) = 200"
    by (simp add: model demo Let_def)
  have "map_option role (findById (snd (login demoEnv demoState bobLogin)) 4) = Some ''user''"
    by (simp add: model demo Let_def)
  then obtain v3 where v3: "findById (snd (login demoEnv demoState bobLogin)) 4 = Some v3"
    by auto
  have c: "code (fst (updatePermissions demoEnv demoState aliceReq 4 grant)) = 200"
    by (simp add: model demo Let_def)
  have g: "fold permissionPut grant (permissions bob) =
             noPermissions\<lparr>manageUsers := True, managePermissions := True\<rparr>"
    by (simp add: grant_def bob_def permissionPut_def noPermissions_def)
  have p1: "permissions v1 = rolePermissions (role v1)"
    using permissions_follow_role_until_overridden
      [where s = demoState and j = 4 and u = bob and ev = demoEnv and ru = aliceReq and i = 4
         and ub = suspend and u' = v1] f v1 b(1)
    by simp
  have p2: "permissions v2 = rolePermissions ''admin''"
    using permissions_follow_role_until_overridden
      [where s = demoState and j = 4 and u = bob and ev = demoEnv and ru = rootReq and i = 4
         and pb = promoteToAdmin and u' = v2] f v2 b
    by simp
  have p3: "permissions v3 = rolePermissions ''user''"
    using permissions_follow_role_until_overridden
      [where s = demoState and j = 4 and u = bob and ev = demoEnv and lb = bobLogin
         and u' = v3] d f v3 b
    by simp
  have p4: "findById (snd (updatePermissions demoEnv demoState aliceReq 4 grant)) 4 =
     Some (bob\<lparr>permissions := noPermissions\<lparr>manageUsers := True, managePermissions := True\<rparr>\<rparr>)"
    using permissions_follow_role_until_overridden
      [where s = demoState and i = 4 and u = bob and ev = demoEnv and ru = aliceReq
         and patch = grant] f c g
    by simp
  from d f b(1) v1 p1 r v2 p2 l v3 p3 c p4 show ?thesis by simp
qed

text \<open>
  An override on a store where every account holds the row of its role: the admin
  Alice sends a permission object for the customer Bob. Bob stays a customer, holds
  \<^verbatim>\<open>manageUsers\<close> and \<^verbatim>\<open>managePermissions\<close> afterwards, and the log is still empty.
\<close>

theorem admin_overrides_permissions:
  "permissionsDerived tidyState \<and>
   auth demoEnv tidyState (Some aliceToken) = Next aliceReq \<and> ruRole aliceReq = ''admin'' \<and>
   code (fst (PUT_permissions demoEnv tidyState (Some aliceToken) 4 grant)) = 200 \<and>
   map_option role (findById (snd (PUT_permissions demoEnv tidyState (Some aliceToken) 4 grant)) 4) =
     Some ''user'' \<and>
   map_option permissions
     (findById (snd (PUT_permissions demoEnv tidyState (Some aliceToken) 4 grant)) 4) =
     Some (noPermissions\<lparr>manageUsers := True, managePermissions := True\<rparr>) \<and>
   rolePermissions ''user'' = noPermissions \<and>
   \<not> permissionsDerived (snd (PUT_permissions demoEnv tidyState (Some aliceToken) 4 grant)) \<and>
   logs (snd (PUT_permissions demoEnv tidyState (Some aliceToken) 4 grant)) = []"
  by (simp add: model demo Let_def)

text \<open>
  What registration stores for a vendor: the hook is skipped as a whole, so the
  permission set stays at the schema's defaults, which is not the vendor's row.
\<close>

lemma registered_vendor_permissions:
  "map_option permissions (findById (snd (register demoEnv demoState zedBody)) 5) =
     Some noPermissions \<and>
   noPermissions \<noteq> rolePermissions ''vendor''"
  by (simp add: model demo Let_def)

end
